theory Spec2Isabelle
  imports Main
begin

section \<open>Types, values and operations of the IR\<close>

text \<open>
  The pass in \<^verbatim>\<open>lib/Dialect/Torch/Transforms/AdjustCallingConventions.cpp\<close> inspects
  of a type only whether it is the none type, a tuple (with its contained types), a
  value-semantic tensor or a non-value-semantic tensor. The payload of the tensor and of
  the remaining types (sizes, dtype, ...) is kept abstract as a number.
\<close>

datatype ty =
    NoneType
  | TupleType (getContainedTypes: "ty list")
  | ValueTensorType nat
  | NonValueTensorType nat
  | IntType
  | OtherType nat

fun isa_NoneType :: "ty \<Rightarrow> bool" where
  "isa_NoneType NoneType = True"
| "isa_NoneType _ = False"

fun isa_TupleType :: "ty \<Rightarrow> bool" where
  "isa_TupleType (TupleType ts) = True"
| "isa_TupleType _ = False"

fun isa_ValueTensorType :: "ty \<Rightarrow> bool" where
  "isa_ValueTensorType (ValueTensorType s) = True"
| "isa_ValueTensorType _ = False"

fun isa_NonValueTensorType :: "ty \<Rightarrow> bool" where
  "isa_NonValueTensorType (NonValueTensorType s) = True"
| "isa_NonValueTensorType _ = False"

text \<open>
  The names of the operations the pass looks at or creates. \<open>CopyTensorToTypeOp\<close> stands
  for the copy/cast chain built by \<^verbatim>\<open>copyTensorToType\<close> (see below).
\<close>

datatype opname =
    CallOp (getCallee: string)
  | ReturnOp
  | CallIndirectOp
  | ConstantNoneOp
  | ConstantIntOp int
  | PrimTupleConstructOp
  | PrimTupleIndexOp
  | UnrealizedConversionCastOp
  | CopyTensorToTypeOp
  | OtherOp nat

text \<open>
  An SSA value is a block argument or a result of an operation; a value carries its
  defining operation, as \<^verbatim>\<open>Value::getDefiningOp\<close> gives it.
\<close>

datatype val =
    BlockArgument nat ty
  | OpResult operation nat ty
and operation =
    Operation (opName: opname) (getOperands: "val list") (getResultTypes: "ty list")

fun getType :: "val \<Rightarrow> ty" where
  "getType (BlockArgument i t) = t"
| "getType (OpResult d k t) = t"

fun getDefiningOp :: "val \<Rightarrow> operation option" where
  "getDefiningOp (BlockArgument i t) = None"
| "getDefiningOp (OpResult d k t) = Some d"

text \<open>
  What ends a rewrite other than success: the match failure with the diagnostic about
  type bounds, a plain \<^verbatim>\<open>failure()\<close>, an index out of range, and a cast applied to the
  null type. The last two end the process; they are not match failures.
\<close>

datatype error =
    UnimplementedNonValueSemanticTypeBound
  | PlainFailure
  | IndexOutOfRange
  | NullTypeDereference

text \<open>\<^verbatim>\<open>op->getOperand(i)\<close> and \<^verbatim>\<open>op.getResult(i)\<close> assert that the index is in range.\<close>

definition getOperand :: "operation \<Rightarrow> nat \<Rightarrow> error + val" where
  "getOperand d i =
     (if i < length (getOperands d) then Inr (getOperands d ! i) else Inl IndexOutOfRange)"

definition getResult :: "operation \<Rightarrow> nat \<Rightarrow> error + val" where
  "getResult d k =
     (if k < length (getResultTypes d) then Inr (OpResult d k (getResultTypes d ! k))
      else Inl IndexOutOfRange)"

definition getResults :: "operation \<Rightarrow> val list" where
  "getResults d = map (\<lambda>(k, t). OpResult d k t) (enumerate 0 (getResultTypes d))"

text \<open>\<^verbatim>\<open>rewriter.create<Op>(loc, type, operands)\<close> for an operation with one result.\<close>

definition create1 :: "opname \<Rightarrow> ty \<Rightarrow> val list \<Rightarrow> val" where
  "create1 n t vs = OpResult (Operation n vs [t]) 0 t"

text \<open>
  Modelled from the spec: \<^verbatim>\<open>copyTensorToType\<close> is declared in a header that is not among
  the source files. The spec describes it as inserting ``a copy/cast operation converting
  the operand to that bound type''; the model creates one operation over the operand
  whose result has the requested type.
\<close>

definition copyTensorToType :: "ty \<Rightarrow> val \<Rightarrow> val" where
  "copyTensorToType t v = create1 CopyTensorToTypeOp t [v]"

section \<open>The type converter\<close>

text \<open>
  A conversion callback answers \<open>None\<close> when it does not apply to the type, \<open>Some None\<close>
  when it fails and \<open>Some (Some ts)\<close> with the converted types. The converter asks the
  callbacks registered last first.
\<close>

type_synonym conversion = "ty \<Rightarrow> ty list option option"

definition identityConversion :: conversion where
  "identityConversion t = Some (Some [t])"

definition tupleConversion :: conversion where
  "tupleConversion t =
     (case t of TupleType ts \<Rightarrow> Some (Some ts) | _ \<Rightarrow> None)"

definition noneConversion :: conversion where
  "noneConversion t =
     (case t of NoneType \<Rightarrow> Some (Some []) | _ \<Rightarrow> None)"

definition typeConverter :: "conversion list" where
  "typeConverter = [identityConversion, tupleConversion, noneConversion]"

fun tryConversions :: "conversion list \<Rightarrow> ty \<Rightarrow> ty list option" where
  "tryConversions [] t = None"
| "tryConversions (c # cs) t =
     (case c t of None \<Rightarrow> tryConversions cs t | Some r \<Rightarrow> r)"

definition convertType :: "conversion list \<Rightarrow> ty \<Rightarrow> ty list option" where
  "convertType conv t = tryConversions (rev conv) t"

fun convertTypes :: "conversion list \<Rightarrow> ty list \<Rightarrow> ty list \<Rightarrow> ty list option" where
  "convertTypes conv results [] = Some results"
| "convertTypes conv results (t # ts) =
     (case convertType conv t of
        None \<Rightarrow> None
      | Some us \<Rightarrow> convertTypes conv (results @ us) ts)"

section \<open>The call-site rewriter\<close>

type_synonym typeBoundMap = "string \<times> nat \<Rightarrow> ty option"

text \<open>The loop over the adaptor's operands; \<open>newOperands\<close> is the vector being filled.\<close>

fun callOperandsLoop ::
  "typeBoundMap \<Rightarrow> string \<Rightarrow> val list \<Rightarrow> (nat \<times> val) list \<Rightarrow> error + val list" where
  "callOperandsLoop tbm callee newOperands [] = Inr newOperands"
| "callOperandsLoop tbm callee newOperands ((i, v) # rest) =
     (if isa_NoneType (getType v) then callOperandsLoop tbm callee newOperands rest
      else case tbm (callee, i) of
        Some b \<Rightarrow>
          (if isa_ValueTensorType b
           then callOperandsLoop tbm callee (newOperands @ [copyTensorToType b v]) rest
           else Inl UnimplementedNonValueSemanticTypeBound)
      | None \<Rightarrow> callOperandsLoop tbm callee (newOperands @ [v]) rest)"

text \<open>
  The loop over the original call's result types; \<open>newOpResultIdx\<close> is the cursor into
  the new call's results and \<open>newResults\<close> the vector being filled.
\<close>

fun callResultsLoop ::
  "operation \<Rightarrow> nat \<Rightarrow> val list \<Rightarrow> ty list \<Rightarrow> error + val list" where
  "callResultsLoop newCall newOpResultIdx newResults [] = Inr newResults"
| "callResultsLoop newCall newOpResultIdx newResults (t # ts) =
     (if isa_NoneType t
      then callResultsLoop newCall newOpResultIdx
             (newResults @ [create1 ConstantNoneOp t []]) ts
      else if isa_TupleType t
      then callResultsLoop newCall newOpResultIdx
             (newResults @ [create1 PrimTupleConstructOp t (getResults newCall)]) ts
      else case getResult newCall newOpResultIdx of
             Inl e \<Rightarrow> Inl e
           | Inr v \<Rightarrow> callResultsLoop newCall (newOpResultIdx + 1) (newResults @ [v]) ts)"

text \<open>
  \<^verbatim>\<open>AdjustCallingConventionForCall::matchAndRewrite\<close>: the result is the new call and the
  values that replace the results of the original call.
\<close>

definition matchAndRewriteCall ::
  "typeBoundMap \<Rightarrow> operation \<Rightarrow> val list \<Rightarrow> error + operation \<times> val list" where
  "matchAndRewriteCall tbm call adaptorOperands =
     (case opName call of
        CallOp callee \<Rightarrow>
          (case convertTypes typeConverter [] (getResultTypes call) of
             None \<Rightarrow> Inl PlainFailure
           | Some convertedResults \<Rightarrow>
               (case callOperandsLoop tbm callee [] (enumerate 0 adaptorOperands) of
                  Inl e \<Rightarrow> Inl e
                | Inr newOperands \<Rightarrow>
                    (let newCall = Operation (CallOp callee) newOperands convertedResults
                     in case callResultsLoop newCall 0 [] (getResultTypes call) of
                          Inl e \<Rightarrow> Inl e
                        | Inr newResults \<Rightarrow> Inr (newCall, newResults))))
      | _ \<Rightarrow> Inl PlainFailure)"

section \<open>The return rewriter\<close>

text \<open>
  The indexed extractions built for a value \<open>operand\<close> of tuple type: for every contained
  type, in order, a constant with the position and a \<^verbatim>\<open>PrimTupleIndexOp\<close> of that type.
\<close>

definition tupleIndexOps :: "val \<Rightarrow> ty list \<Rightarrow> val list" where
  "tupleIndexOps operand ts =
     map (\<lambda>(i, t). create1 PrimTupleIndexOp t
                     [operand, create1 (ConstantIntOp (int i)) IntType []])
         (enumerate 0 ts)"

text \<open>
  The test made on the first value of a group of several values: when its defining
  operation is an unrealized conversion cast whose operand 0 has a tuple type, that
  operand; otherwise nothing.
\<close>

definition tupleBehindCast :: "val \<Rightarrow> error + val option" where
  "tupleBehindCast v =
     (case getDefiningOp v of
        None \<Rightarrow> Inr None
      | Some d \<Rightarrow>
          (if opName d = UnrealizedConversionCastOp
           then (case getOperand d 0 of
                   Inl e \<Rightarrow> Inl e
                 | Inr operand \<Rightarrow>
                     (if isa_TupleType (getType operand) then Inr (Some operand)
                      else Inr None))
           else Inr None))"

fun returnOperandsLoop :: "val list \<Rightarrow> val list list \<Rightarrow> error + val list" where
  "returnOperandsLoop newOperands [] = Inr newOperands"
| "returnOperandsLoop newOperands (vals # rest) =
     (if length vals = 1
      then (if isa_NoneType (getType (vals ! 0))
            then returnOperandsLoop newOperands rest
            else returnOperandsLoop (newOperands @ [vals ! 0]) rest)
      else if length vals > 1
      then (case tupleBehindCast (vals ! 0) of
              Inl e \<Rightarrow> Inl e
            | Inr (Some operand) \<Rightarrow>
                returnOperandsLoop
                  (newOperands @ tupleIndexOps operand (getContainedTypes (getType operand)))
                  rest
            | Inr None \<Rightarrow> returnOperandsLoop (newOperands @ vals) rest)
      else returnOperandsLoop newOperands rest)"

text \<open>\<^verbatim>\<open>AdjustCallingConventionForReturn::matchAndRewrite\<close>: the new return.\<close>

definition matchAndRewriteReturn :: "val list list \<Rightarrow> error + operation" where
  "matchAndRewriteReturn adaptorOperands =
     (case returnOperandsLoop [] adaptorOperands of
        Inl e \<Rightarrow> Inl e
      | Inr newOperands \<Rightarrow> Inr (Operation ReturnOp newOperands []))"

section \<open>Functions and the signature rewriter\<close>

datatype attr = TypeAttr ty | OtherAttr nat

text \<open>
  A function: its name, its arguments (the declared type of each with its
  \<^verbatim>\<open>torch.type_bound\<close> attribute, if it has one), its result types and the operations of
  its body, in the order of a walk, each with its identity.
\<close>

record funcOp =
  sym_name :: string
  arguments :: "(ty \<times> attr option) list"
  resultTypes :: "ty list"
  body :: "(nat \<times> operation) list"

text \<open>\<^verbatim>\<open>getArgAttrOfType<TypeAttr>\<close>: the attribute when present and a \<^verbatim>\<open>TypeAttr\<close>.\<close>

fun getArgAttrOfType :: "attr option \<Rightarrow> ty option" where
  "getArgAttrOfType (Some (TypeAttr t)) = Some t"
| "getArgAttrOfType _ = None"

text \<open>
  \<^verbatim>\<open>Type bound = typeBoundAttr ? typeBoundAttr.getValue() : Type()\<close> followed by
  \<^verbatim>\<open>isa<ValueTensorType>(bound)\<close>. The cast reads the type it is given. Without a type
  bound it is given the null type and reads through a null pointer: the process ends
  there, and no match failure is reported.
\<close>

fun isa_ValueTensorType_bound :: "ty option \<Rightarrow> error + bool" where
  "isa_ValueTensorType_bound None = Inl NullTypeDereference"
| "isa_ValueTensorType_bound (Some b) = Inr (isa_ValueTensorType b)"

text \<open>
  The loop over the argument types; \<open>conversion\<close> is the list of converted types that the
  signature conversion has collected (\<^verbatim>\<open>addInputs\<close> appends to it).
\<close>

fun argumentsLoop :: "ty list \<Rightarrow> (ty \<times> attr option) list \<Rightarrow> error + ty list" where
  "argumentsLoop conversion [] = Inr conversion"
| "argumentsLoop conversion ((t, a) # rest) =
     (if isa_NonValueTensorType t
      then (let typeBoundAttr = getArgAttrOfType a
            in case isa_ValueTensorType_bound typeBoundAttr of
                 Inl e \<Rightarrow> Inl e
               | Inr isValueTensor \<Rightarrow>
                   (if \<not> isValueTensor
                    then Inl UnimplementedNonValueSemanticTypeBound
                    else argumentsLoop
                           (conversion @ [case typeBoundAttr of Some b \<Rightarrow> b | None \<Rightarrow> t])
                           rest))
      else if isa_NoneType t then argumentsLoop conversion rest
      else argumentsLoop (conversion @ [t]) rest)"

fun resultsLoop :: "ty list \<Rightarrow> ty list \<Rightarrow> ty list" where
  "resultsLoop newResultTypes [] = newResultTypes"
| "resultsLoop newResultTypes (t # ts) =
     (if isa_NoneType t then resultsLoop newResultTypes ts
      else if isa_TupleType t then resultsLoop (newResultTypes @ getContainedTypes t) ts
      else resultsLoop (newResultTypes @ [t]) ts)"

text \<open>
  \<^verbatim>\<open>AdjustCallingConventionForFunc::matchAndRewrite\<close>. The function gets the converted
  argument types and the new result types, and the type bound is removed from every
  argument it then has. The arguments of the entry block are converted by the engine
  (\<^verbatim>\<open>applySignatureConversion\<close>); the body of the record is not touched here.
\<close>

definition matchAndRewriteFunc :: "funcOp \<Rightarrow> error + funcOp" where
  "matchAndRewriteFunc func =
     (case argumentsLoop [] (arguments func) of
        Inl e \<Rightarrow> Inl e
      | Inr convertedTypes \<Rightarrow>
          Inr (func\<lparr>arguments := map (\<lambda>t. (t, None)) convertedTypes,
                    resultTypes := resultsLoop [] (resultTypes func)\<rparr>))"

section \<open>The conversion target\<close>

text \<open>The dynamic legality of a function: the two loops of the callback.\<close>

fun argumentsLegal :: "(ty \<times> attr option) list \<Rightarrow> bool" where
  "argumentsLegal [] = True"
| "argumentsLegal ((t, a) # rest) =
     (if a \<noteq> None then False
      else if isa_NoneType t then False
      else argumentsLegal rest)"

fun resultsLegal :: "ty list \<Rightarrow> bool" where
  "resultsLegal [] = True"
| "resultsLegal (t # ts) = (if isa_NoneType t then False else resultsLegal ts)"

definition isLegalFuncOp :: "funcOp \<Rightarrow> bool" where
  "isLegalFuncOp func = (if argumentsLegal (arguments func)
                         then resultsLegal (resultTypes func) else False)"

text \<open>
  The legality predicate in the words of the spec: no remaining annotation and no
  none-typed or tuple-typed element in the signature.
\<close>

definition alreadyLegal_spec :: "funcOp \<Rightarrow> bool" where
  "alreadyLegal_spec func =
     (list_all (\<lambda>(t, a). a = None \<and> \<not> isa_NoneType t \<and> \<not> isa_TupleType t) (arguments func)
      \<and> list_all (\<lambda>t. \<not> isa_NoneType t \<and> \<not> isa_TupleType t) (resultTypes func))"

fun isa_CallOp :: "operation \<Rightarrow> bool" where
  "isa_CallOp (Operation (CallOp c) vs ts) = True"
| "isa_CallOp _ = False"

fun isa_ReturnOp :: "operation \<Rightarrow> bool" where
  "isa_ReturnOp (Operation ReturnOp vs ts) = True"
| "isa_ReturnOp _ = False"

text \<open>The calls and the returns found by the two walks over the function.\<close>

definition opsInOriginalProgram :: "funcOp \<Rightarrow> nat set" where
  "opsInOriginalProgram func =
     set (map fst (filter (\<lambda>(i, d). isa_CallOp d) (body func)))
     \<union> set (map fst (filter (\<lambda>(i, d). isa_ReturnOp d) (body func)))"

datatype legality = Legal | Illegal | Unknown

text \<open>
  What the target says of an operation with identity \<open>i\<close>: calls and returns are legal
  when they are not in the set collected before the conversion, the operations the
  patterns create are legal, an indirect call is illegal, and the target says nothing
  of any other operation.
\<close>

definition isLegalOp :: "nat set \<Rightarrow> nat \<times> operation \<Rightarrow> legality" where
  "isLegalOp orig p =
     (case opName (snd p) of
        CallOp c \<Rightarrow> (if fst p \<notin> orig then Legal else Illegal)
      | ReturnOp \<Rightarrow> (if fst p \<notin> orig then Legal else Illegal)
      | CopyTensorToTypeOp \<Rightarrow> Legal
      | ConstantNoneOp \<Rightarrow> Legal
      | ConstantIntOp n \<Rightarrow> Legal
      | PrimTupleIndexOp \<Rightarrow> Legal
      | PrimTupleConstructOp \<Rightarrow> Legal
      | CallIndirectOp \<Rightarrow> Illegal
      | _ \<Rightarrow> Unknown)"

section \<open>The driver\<close>

text \<open>
  The conversion engine behind \<^verbatim>\<open>applyPartialConversion\<close> is not among the source
  files. The spec describes it as applying the registered rewrite rules until the
  legality predicate of the target holds, leaving alone the operations that are legal,
  and failing, with nothing committed, when an illegal operation cannot be rewritten.
  The operands a pattern sees are those of the operation as the engine has remapped
  them; the remapping is a parameter of the model: \<open>oneToOne\<close> gives the operands of
  the adaptor of the call pattern, \<open>oneToN\<close> the groups of the return pattern.
\<close>

record remapping =
  oneToOne :: "val \<Rightarrow> val"
  oneToN :: "val \<Rightarrow> val list"

text \<open>
  Modelled from the spec: the engine on the function itself. A legal function is left
  alone; an illegal one is given to the pattern for functions, and the conversion
  fails when the pattern fails or the function rewritten in place is still not legal.
  The spec knows a pattern to succeed or to fail. Where the pattern for functions ends
  the process instead (\<open>NullTypeDereference\<close>) there is no converted function either,
  and the model has the one answer \<open>None\<close> for both.
\<close>

definition legalizeFuncOp :: "funcOp \<Rightarrow> funcOp option" where
  "legalizeFuncOp func =
     (if isLegalFuncOp func then Some func
      else case matchAndRewriteFunc func of
             Inl e \<Rightarrow> None
           | Inr func' \<Rightarrow> (if isLegalFuncOp func' then Some func' else None))"

text \<open>
  Modelled from the spec: the engine on the operations of the body, in order. An
  operation the target calls illegal is given to the pattern of its kind (there are
  patterns for calls and returns only); the conversion fails when there is no pattern
  or the pattern fails. The operation the pattern creates takes the place of the
  original one under the identity \<open>fresh\<close>, and the values that replace the results of
  the original operation are recorded with its identity; updating the uses is left to
  the engine. Every other operation stays.
\<close>

fun convertOps ::
  "remapping \<Rightarrow> typeBoundMap \<Rightarrow> nat set \<Rightarrow> nat \<Rightarrow> (nat \<times> operation) list
   \<Rightarrow> ((nat \<times> operation) list \<times> (nat \<times> val list) list) option" where
  "convertOps r tbm orig fresh [] = Some ([], [])"
| "convertOps r tbm orig fresh ((i, d) # rest) =
     (if isLegalOp orig (i, d) = Illegal
      then (if isa_CallOp d
            then (case matchAndRewriteCall tbm d (map (oneToOne r) (getOperands d)) of
                    Inl e \<Rightarrow> None
                  | Inr (newCall, newResults) \<Rightarrow>
                      (case convertOps r tbm orig (Suc fresh) rest of
                         None \<Rightarrow> None
                       | Some (ops, repl) \<Rightarrow>
                           Some ((fresh, newCall) # ops, (i, newResults) # repl)))
            else if isa_ReturnOp d
            then (case matchAndRewriteReturn (map (oneToN r) (getOperands d)) of
                    Inl e \<Rightarrow> None
                  | Inr newReturn \<Rightarrow>
                      (case convertOps r tbm orig (Suc fresh) rest of
                         None \<Rightarrow> None
                       | Some (ops, repl) \<Rightarrow>
                           Some ((fresh, newReturn) # ops, (i, []) # repl)))
            else None)
      else (case convertOps r tbm orig fresh rest of
              None \<Rightarrow> None
            | Some (ops, repl) \<Rightarrow> Some ((i, d) # ops, repl)))"

text \<open>
  Modelled from the spec: an operation created during the conversion is none of the
  operations the function had before; the first identity given out is above all of
  theirs.
\<close>

definition freshId :: "(nat \<times> operation) list \<Rightarrow> nat" where
  "freshId ops = Suc (fold max (map fst ops) 0)"

text \<open>
  \<^verbatim>\<open>adjustCallingConventions\<close>: \<open>None\<close> is \<^verbatim>\<open>failure()\<close> (or, as said above, no return
  at all), and then the function is as it was; otherwise the converted function and
  the recorded replacements.
\<close>

definition adjustCallingConventions ::
  "remapping \<Rightarrow> funcOp \<Rightarrow> typeBoundMap \<Rightarrow> (funcOp \<times> (nat \<times> val list) list) option" where
  "adjustCallingConventions r func tbm =
     (let orig = opsInOriginalProgram func
      in case legalizeFuncOp func of
           None \<Rightarrow> None
         | Some func' \<Rightarrow>
             (case convertOps r tbm orig (freshId (body func)) (body func) of
                None \<Rightarrow> None
              | Some (ops, repl) \<Rightarrow> Some (func'\<lparr>body := ops\<rparr>, repl)))"

text \<open>The first loop of \<^verbatim>\<open>runOnOperation\<close>: the table of the type bounds.\<close>

definition collectFunc :: "funcOp \<Rightarrow> typeBoundMap \<Rightarrow> typeBoundMap" where
  "collectFunc func tbm =
     fold (\<lambda>(i, (t, a)) m.
             case getArgAttrOfType a of
               None \<Rightarrow> m
             | Some b \<Rightarrow> m((sym_name func, i) \<mapsto> b))
          (enumerate 0 (arguments func)) tbm"

definition collectTypeBounds :: "funcOp list \<Rightarrow> typeBoundMap" where
  "collectTypeBounds module = fold collectFunc module Map.empty"

datatype logicalResult = Success | Failure

text \<open>
  The second loop: the functions are converted in order, and the first failure ends the
  pass; the functions converted before it stay converted.
\<close>

fun runFuncs ::
  "remapping \<Rightarrow> typeBoundMap \<Rightarrow> funcOp list \<Rightarrow> logicalResult \<times> funcOp list" where
  "runFuncs r tbm [] = (Success, [])"
| "runFuncs r tbm (func # rest) =
     (case adjustCallingConventions r func tbm of
        None \<Rightarrow> (Failure, func # rest)
      | Some (func', repl) \<Rightarrow>
          (case runFuncs r tbm rest of (res, rest') \<Rightarrow> (res, func' # rest')))"

definition runOnOperation :: "remapping \<Rightarrow> funcOp list \<Rightarrow> logicalResult \<times> funcOp list" where
  "runOnOperation r module = runFuncs r (collectTypeBounds module) module"

section \<open>Closed forms used in the statements\<close>

text \<open>
  What the type converter makes of one type, in closed form.
\<close>

fun flattenType :: "ty \<Rightarrow> ty list" where
  "flattenType t =
     (if isa_NoneType t then []
      else if isa_TupleType t then getContainedTypes t
      else [t])"

text \<open>
  What the operand at position \<open>i\<close> of a call to \<open>callee\<close> becomes: nothing when it is
  none-typed, itself when the table has no bound for the position, and a copy to the
  bound otherwise.
\<close>

fun operandContribution :: "typeBoundMap \<Rightarrow> string \<Rightarrow> nat \<times> val \<Rightarrow> val list" where
  "operandContribution tbm callee (i, v) =
     (if isa_NoneType (getType v) then []
      else case tbm (callee, i) of
             None \<Rightarrow> [v]
           | Some b \<Rightarrow> [copyTensorToType b v])"

text \<open>
  The operand does not stop the call rewriter: it is none-typed, or the table has no bound
  for its position, or the bound is a value tensor type.
\<close>

fun boundUsable :: "typeBoundMap \<Rightarrow> string \<Rightarrow> nat \<times> val \<Rightarrow> bool" where
  "boundUsable tbm callee (i, v) =
     (if isa_NoneType (getType v) then True
      else case tbm (callee, i) of
             None \<Rightarrow> True
           | Some b \<Rightarrow> isa_ValueTensorType b)"

text \<open>
  What an argument of a function becomes in the new signature: nothing when it is
  none-typed, its bound when it is a non-value tensor, and otherwise itself.
\<close>

fun convertedArgument :: "ty \<times> attr option \<Rightarrow> ty list" where
  "convertedArgument (t, a) =
     (if isa_NoneType t then []
      else if isa_NonValueTensorType t
      then (case getArgAttrOfType a of Some b \<Rightarrow> [b] | None \<Rightarrow> [t])
      else [t])"

text \<open>
  A non-value tensor argument has a type bound that is a value tensor type.
\<close>

fun boundValid :: "ty \<times> attr option \<Rightarrow> bool" where
  "boundValid (t, a) =
     (if isa_NonValueTensorType t
      then (case getArgAttrOfType a of Some b \<Rightarrow> isa_ValueTensorType b | None \<Rightarrow> False)
      else True)"

text \<open>
  A non-value tensor argument has a type bound, of whatever type: the signature rewriter
  gets past the argument or stops at it with a match failure.
\<close>

fun boundPresent :: "ty \<times> attr option \<Rightarrow> bool" where
  "boundPresent (t, a) =
     (if isa_NonValueTensorType t then getArgAttrOfType a \<noteq> None else True)"

text \<open>
  The value is a result of an unrealized conversion cast whose first operand has a tuple
  type; the answer is that operand.
\<close>

fun castOverTuple :: "val \<Rightarrow> val option" where
  "castOverTuple (OpResult (Operation UnrealizedConversionCastOp (tup # rest) ts) k t) =
     (if isa_TupleType (getType tup) then Some tup else None)"
| "castOverTuple _ = None"

text \<open>
  The value is a result of an unrealized conversion cast that has no operand at all.
\<close>

fun castWithoutOperand :: "val \<Rightarrow> bool" where
  "castWithoutOperand (OpResult (Operation UnrealizedConversionCastOp [] ts) k t) = True"
| "castWithoutOperand _ = False"

text \<open>
  What one group of values contributes to the new return: nothing when it is empty; for
  one value, nothing when it is none-typed and the value otherwise; for several values,
  the indexed extractions of the tuple behind the cast that defines the first of them,
  or else the group as it is.
\<close>

fun returnContribution :: "val list \<Rightarrow> val list" where
  "returnContribution [] = []"
| "returnContribution [v] = (if isa_NoneType (getType v) then [] else [v])"
| "returnContribution (v # w # rest) =
     (case castOverTuple v of
        Some tup \<Rightarrow> tupleIndexOps tup (getContainedTypes (getType tup))
      | None \<Rightarrow> v # w # rest)"

text \<open>
  A group of several values does not start with the result of a cast without operands
  (operand 0 of such a cast cannot be read).
\<close>

fun groupWellFormed :: "val list \<Rightarrow> bool" where
  "groupWellFormed (v # w # rest) = (\<not> castWithoutOperand v)"
| "groupWellFormed _ = True"


text \<open>
  The remapping of an engine that has replaced no value.
\<close>

definition identityRemapping :: remapping where
  "identityRemapping = \<lparr>oneToOne = (\<lambda>v. v), oneToN = (\<lambda>v. [v])\<rparr>"

section \<open>Example programs\<close>

text \<open>
  A function \<open>f\<close> with a bounded tensor argument and a none argument, returning a tensor
  and none; a function \<open>g\<close> that calls it; and what the conversion makes of \<open>g\<close>.
\<close>

definition exampleFunc :: funcOp where
  "exampleFunc =
     \<lparr>sym_name = ''f'',
      arguments = [(NonValueTensorType 0, Some (TypeAttr (ValueTensorType 1))), (NoneType, None)],
      resultTypes = [NonValueTensorType 0, NoneType],
      body = [(0, Operation ReturnOp
                    [BlockArgument 0 (NonValueTensorType 0), BlockArgument 1 NoneType] [])]\<rparr>"

definition exampleCall :: operation where
  "exampleCall =
     Operation (CallOp ''f'')
       [BlockArgument 0 (NonValueTensorType 0), create1 ConstantNoneOp NoneType []]
       [NonValueTensorType 0, NoneType]"



definition exampleNewCall :: operation where
  "exampleNewCall =
     Operation (CallOp ''f'')
       [copyTensorToType (ValueTensorType 1) (BlockArgument 0 (NonValueTensorType 0))]
       [NonValueTensorType 0]"

definition exampleCallerConverted :: funcOp where
  "exampleCallerConverted =
     \<lparr>sym_name = ''g'',
      arguments = [(ValueTensorType 1, None)],
      resultTypes = [NonValueTensorType 0],
      body = [(2, exampleNewCall),
              (3, Operation ReturnOp [OpResult exampleCall 0 (NonValueTensorType 0)] [])]\<rparr>"

text \<open>
  A call and a function that need no adjustment.
\<close>

definition plainCall :: operation where
  "plainCall = Operation (CallOp ''h'') [BlockArgument 0 IntType] [IntType]"

definition plainCaller :: funcOp where
  "plainCaller =
     \<lparr>sym_name = ''g'',
      arguments = [(IntType, None)],
      resultTypes = [IntType],
      body = [(0, plainCall), (1, Operation ReturnOp [OpResult plainCall 0 IntType] [])]\<rparr>"

text \<open>
  Functions at the edges of the pass: a value tensor argument with a non-value bound; a
  non-value tensor argument with a non-value bound, after one with a value bound; a
  non-value tensor argument without a bound, before one with a bound; a tuple-typed
  argument without any annotation; an indirect call; and a signature with every kind
  of argument and result.
\<close>

definition boundOnValueTensor :: funcOp where
  "boundOnValueTensor =
     \<lparr>sym_name = ''f'',
      arguments = [(ValueTensorType 0, Some (TypeAttr (NonValueTensorType 0)))],
      resultTypes = [],
      body = [(0, Operation ReturnOp [] [])]\<rparr>"

definition aliasingBound :: funcOp where
  "aliasingBound =
     \<lparr>sym_name = ''f'',
      arguments = [(NonValueTensorType 0, Some (TypeAttr (ValueTensorType 1))),
                   (NonValueTensorType 0, Some (TypeAttr (NonValueTensorType 1)))],
      resultTypes = [],
      body = [(0, Operation ReturnOp [] [])]\<rparr>"

definition partlyAnnotated :: funcOp where
  "partlyAnnotated =
     \<lparr>sym_name = ''f'',
      arguments = [(NonValueTensorType 0, None),
                   (NonValueTensorType 0, Some (TypeAttr (ValueTensorType 1)))],
      resultTypes = [],
      body = [(0, Operation ReturnOp [] [])]\<rparr>"


definition indirectCaller :: funcOp where
  "indirectCaller =
     \<lparr>sym_name = ''h'',
      arguments = [(OtherType 0, None)],
      resultTypes = [],
      body = [(0, Operation CallIndirectOp [BlockArgument 0 (OtherType 0)] []),
              (1, Operation ReturnOp [] [])]\<rparr>"

definition mixedSignature :: funcOp where
  "mixedSignature =
     \<lparr>sym_name = ''f'',
      arguments = [(NonValueTensorType 0, Some (TypeAttr (ValueTensorType 1))),
                   (NoneType, None), (IntType, None)],
      resultTypes = [NoneType, TupleType [ValueTensorType 0, IntType], NonValueTensorType 0],
      body = []\<rparr>"

text \<open>
  A table of type bounds and a cast of a tuple, as the engine leaves it.
\<close>

definition exampleBounds :: typeBoundMap where
  "exampleBounds = Map.empty((''f'', 1) \<mapsto> ValueTensorType 1)"

definition exampleTupleCast :: operation where
  "exampleTupleCast =
     Operation UnrealizedConversionCastOp
       [BlockArgument 0 (TupleType [ValueTensorType 0, IntType])]
       [ValueTensorType 0, IntType]"

section \<open>Facts about the type converter and the loops of the call rewriter\<close>

lemma convertType_typeConverter: "convertType typeConverter t = Some (flattenType t)"
  by (cases t)
     (simp_all add: convertType_def typeConverter_def identityConversion_def
        tupleConversion_def noneConversion_def)

lemma convertTypes_typeConverter:
  "convertTypes typeConverter acc ts = Some (acc @ concat (map flattenType ts))"
  by (induction ts arbitrary: acc)
     (simp_all add: convertType_typeConverter del: flattenType.simps)

lemma callResultsLoop_acc:
  "callResultsLoop nc idx acc ts =
     (case callResultsLoop nc idx [] ts of Inl e \<Rightarrow> Inl e | Inr rs \<Rightarrow> Inr (acc @ rs))"
proof (induction ts arbitrary: idx acc)
  case Nil
  then show ?case by simp
next
  case (Cons t ts)
  have A: "callResultsLoop nc i (acc @ [x]) ts =
       (case callResultsLoop nc i [x] ts of Inl e \<Rightarrow> Inl e | Inr rs \<Rightarrow> Inr (acc @ rs))"
    for i x
    using Cons.IH[of i "acc @ [x]"] Cons.IH[of i "[x]"] by (simp split: sum.splits)
  show ?case by (simp add: A split: sum.splits)
qed

lemma callResultsLoop_Cons:
  "callResultsLoop nc idx [] (t # ts) =
     (if isa_NoneType t
      then (case callResultsLoop nc idx [] ts of
              Inl e \<Rightarrow> Inl e
            | Inr rs \<Rightarrow> Inr (create1 ConstantNoneOp t [] # rs))
      else if isa_TupleType t
      then (case callResultsLoop nc idx [] ts of
              Inl e \<Rightarrow> Inl e
            | Inr rs \<Rightarrow> Inr (create1 PrimTupleConstructOp t (getResults nc) # rs))
      else (case getResult nc idx of
              Inl e \<Rightarrow> Inl e
            | Inr v \<Rightarrow>
                (case callResultsLoop nc (Suc idx) [] ts of
                   Inl e \<Rightarrow> Inl e
                 | Inr rs \<Rightarrow> Inr (v # rs))))"
  by (simp add: callResultsLoop_acc[of nc _ "[_]"] split: sum.splits)

lemma callResultsLoop_length:
  "callResultsLoop nc idx [] ts = Inr rs \<Longrightarrow> length rs = length ts"
  by (induction ts arbitrary: idx rs)
     (auto simp: callResultsLoop_Cons simp del: callResultsLoop.simps(2)
           split: if_splits sum.splits)

lemma callResultsLoop_none:
  "callResultsLoop nc idx [] ts = Inr rs \<Longrightarrow> k < length ts \<Longrightarrow> isa_NoneType (ts ! k) \<Longrightarrow>
     rs ! k = create1 ConstantNoneOp (ts ! k) []"
proof (induction ts arbitrary: idx rs k)
  case Nil
  then show ?case by simp
next
  case (Cons t ts)
  then show ?case
    by (cases k)
       (auto simp: callResultsLoop_Cons simp del: callResultsLoop.simps(2)
             split: if_splits sum.splits)
qed

lemma matchAndRewriteCall_Inr:
  assumes "matchAndRewriteCall tbm call adaptorOperands = Inr (newCall, newResults)"
  shows "callResultsLoop newCall 0 [] (getResultTypes call) = Inr newResults"
  using assms
  by (auto simp: matchAndRewriteCall_def Let_def split: opname.splits option.splits sum.splits)

lemma callOperandsLoop_ok:
  "list_all (boundUsable tbm callee) ivs \<Longrightarrow>
     callOperandsLoop tbm callee acc ivs =
       Inr (acc @ concat (map (operandContribution tbm callee) ivs))"
  by (induction ivs arbitrary: acc) (auto split: option.splits if_splits)

lemma callOperandsLoop_bad:
  "\<not> list_all (boundUsable tbm callee) ivs \<Longrightarrow>
     callOperandsLoop tbm callee acc ivs = Inl UnimplementedNonValueSemanticTypeBound"
  by (induction ivs arbitrary: acc) (auto split: option.splits if_splits)

lemma callResultsLoop_total:
  "idx + length (filter (\<lambda>t. \<not> isa_NoneType t \<and> \<not> isa_TupleType t) ts)
     \<le> length (getResultTypes nc)
   \<Longrightarrow> \<exists>rs. callResultsLoop nc idx [] ts = Inr rs"
proof (induction ts arbitrary: idx)
  case Nil
  then show ?case by simp
next
  case (Cons t ts)
  show ?case
  proof (cases "isa_NoneType t \<or> isa_TupleType t")
    case True
    with Cons.prems
    have "idx + length (filter (\<lambda>t. \<not> isa_NoneType t \<and> \<not> isa_TupleType t) ts)
            \<le> length (getResultTypes nc)"
      by auto
    from Cons.IH[OF this] True show ?thesis
      by (auto simp: callResultsLoop_Cons simp del: callResultsLoop.simps(2))
  next
    case False
    with Cons.prems
    have "Suc idx + length (filter (\<lambda>t. \<not> isa_NoneType t \<and> \<not> isa_TupleType t) ts)
            \<le> length (getResultTypes nc)"
      and "idx < length (getResultTypes nc)"
      by auto
    from Cons.IH[OF this(1)] this(2) False show ?thesis
      by (auto simp: callResultsLoop_Cons getResult_def simp del: callResultsLoop.simps(2))
  qed
qed

lemma plain_le_flat:
  "length (filter (\<lambda>t. \<not> isa_NoneType t \<and> \<not> isa_TupleType t) ts)
     \<le> length (concat (map flattenType ts))"
  by (induction ts) auto

lemma matchAndRewriteCall_ok:
  assumes "opName call = CallOp callee"
    and "list_all (boundUsable tbm callee) (enumerate 0 adaptorOperands)"
  shows "\<exists>newResults.
           matchAndRewriteCall tbm call adaptorOperands =
             Inr (Operation (CallOp callee)
                    (concat (map (operandContribution tbm callee) (enumerate 0 adaptorOperands)))
                    (concat (map flattenType (getResultTypes call))),
                  newResults)"
proof -
  let ?nc = "Operation (CallOp callee)
                    (concat (map (operandContribution tbm callee) (enumerate 0 adaptorOperands)))
                    (concat (map flattenType (getResultTypes call)))"
  have "\<exists>rs. callResultsLoop ?nc 0 [] (getResultTypes call) = Inr rs"
    by (rule callResultsLoop_total) (simp add: plain_le_flat del: flattenType.simps)
  then obtain rs where "callResultsLoop ?nc 0 [] (getResultTypes call) = Inr rs" ..
  then show ?thesis
    using assms
    by (simp add: matchAndRewriteCall_def convertTypes_typeConverter callOperandsLoop_ok
             del: flattenType.simps)
qed

lemma matchAndRewriteCall_bad:
  assumes "opName call = CallOp callee"
    and "\<not> list_all (boundUsable tbm callee) (enumerate 0 adaptorOperands)"
  shows "matchAndRewriteCall tbm call adaptorOperands = Inl UnimplementedNonValueSemanticTypeBound"
  using assms
  by (simp add: matchAndRewriteCall_def convertTypes_typeConverter callOperandsLoop_bad
             del: flattenType.simps)

lemma matchAndRewriteCall_isa:
  "matchAndRewriteCall tbm d vs = Inr (newCall, newResults) \<Longrightarrow> isa_CallOp newCall"
  by (auto simp: matchAndRewriteCall_def Let_def split: opname.splits option.splits sum.splits)

lemma getResults_upt:
  "getResults nc = map (\<lambda>k. OpResult nc k (getResultTypes nc ! k)) [0..<length (getResultTypes nc)]"
  by (rule nth_equalityI) (simp_all add: getResults_def nth_enumerate_eq)

lemma callResultsLoop_plain:
  "list_all (\<lambda>t. \<not> isa_NoneType t \<and> \<not> isa_TupleType t) ts \<Longrightarrow>
   idx + length ts \<le> length (getResultTypes nc) \<Longrightarrow>
     callResultsLoop nc idx [] ts =
       Inr (map (\<lambda>k. OpResult nc k (getResultTypes nc ! k)) [idx..<idx + length ts])"
proof (induction ts arbitrary: idx)
  case Nil
  then show ?case by simp
next
  case (Cons t ts)
  from Cons.prems have "list_all (\<lambda>t. \<not> isa_NoneType t \<and> \<not> isa_TupleType t) ts"
    and "Suc idx + length ts \<le> length (getResultTypes nc)" and "idx < length (getResultTypes nc)"
    and "\<not> isa_NoneType t" "\<not> isa_TupleType t"
    by auto
  moreover have "[idx..<idx + length (t # ts)] = idx # [Suc idx..<Suc idx + length ts]"
    using upt_conv_Cons[of idx "idx + length (t # ts)"] by (simp del: upt_Suc)
  ultimately show ?case
    using Cons.IH[of "Suc idx"]
    by (simp add: callResultsLoop_Cons getResult_def del: callResultsLoop.simps(2) upt_Suc)
qed

lemma flatten_plain:
  "list_all (\<lambda>t. \<not> isa_NoneType t \<and> \<not> isa_TupleType t) ts \<Longrightarrow> concat (map flattenType ts) = ts"
  by (induction ts) auto

lemma contribution_plain:
  "list_all (\<lambda>v. \<not> isa_NoneType (getType v)) vs \<Longrightarrow> \<forall>i. tbm (callee, i) = None \<Longrightarrow>
     concat (map (operandContribution tbm callee) (enumerate k vs)) = vs"
  by (induction vs arbitrary: k) auto

lemma usable_plain:
  "\<forall>i. tbm (callee, i) = None \<Longrightarrow> list_all (boundUsable tbm callee) ivs"
  by (induction ivs) auto

lemma call_unchanged:
  assumes "list_all (\<lambda>v. \<not> isa_NoneType (getType v)) vs" and "\<forall>i. tbm (callee, i) = None"
    and "list_all (\<lambda>t. \<not> isa_NoneType t \<and> \<not> isa_TupleType t) ts"
  shows "matchAndRewriteCall tbm (Operation (CallOp callee) vs ts) vs =
           Inr (Operation (CallOp callee) vs ts, getResults (Operation (CallOp callee) vs ts))"
proof -
  have "callOperandsLoop tbm callee [] (enumerate 0 vs) = Inr vs"
    using callOperandsLoop_ok[OF usable_plain[OF assms(2)], of "[]" "enumerate 0 vs"]
          contribution_plain[OF assms(1,2)] by simp
  moreover have "callResultsLoop (Operation (CallOp callee) vs ts) 0 [] ts =
      Inr (getResults (Operation (CallOp callee) vs ts))"
    using callResultsLoop_plain[OF assms(3), of 0 "Operation (CallOp callee) vs ts"]
    by (simp add: getResults_upt)
  ultimately show ?thesis
    by (simp add: matchAndRewriteCall_def Let_def convertTypes_typeConverter
                  flatten_plain[OF assms(3)]
             del: flattenType.simps)
qed

section \<open>Facts about the signature rewriter and the return rewriter\<close>

lemma argumentsLoop_ok:
  "list_all boundValid args \<Longrightarrow>
     argumentsLoop conv args = Inr (conv @ concat (map convertedArgument args))"
proof (induction args arbitrary: conv)
  case Nil
  then show ?case by simp
next
  case (Cons p args)
  obtain t a where p: "p = (t, a)" by (cases p)
  show ?case
  proof (cases "isa_NonValueTensorType t")
    case True
    then have nn: "\<not> isa_NoneType t" by (cases t) simp_all
    from True Cons.prems p obtain b where b: "getArgAttrOfType a = Some b"
      and v: "isa_ValueTensorType b"
      by (cases "getArgAttrOfType a") auto
    with True nn Cons p show ?thesis by simp
  next
    case False
    with Cons p show ?thesis by simp
  qed
qed

lemma argumentsLoop_not_ok:
  "\<not> list_all boundValid args \<Longrightarrow> \<exists>e. argumentsLoop conv args = Inl e"
proof (induction args arbitrary: conv)
  case Nil
  then show ?case by simp
next
  case (Cons p args)
  obtain t a where p: "p = (t, a)" by (cases p)
  show ?case
  proof (cases "boundValid (t, a)")
    case True
    with Cons.prems p have "\<not> list_all boundValid args" by simp
    from Cons.IH[OF this] True p show ?thesis
      by (auto simp: Let_def split: option.splits)
  next
    case False
    with p show ?thesis by (auto simp: Let_def split: option.splits if_splits)
  qed
qed

lemma argumentsLoop_unimplemented:
  "i < length args \<Longrightarrow> args ! i = (t, Some (TypeAttr b)) \<Longrightarrow> isa_NonValueTensorType t \<Longrightarrow>
   \<not> isa_ValueTensorType b \<Longrightarrow> list_all boundPresent (take i args) \<Longrightarrow>
     argumentsLoop conv args = Inl UnimplementedNonValueSemanticTypeBound"
proof (induction args arbitrary: i conv)
  case Nil
  then show ?case by simp
next
  case (Cons p args)
  obtain t' a' where p: "p = (t', a')" by (cases p)
  show ?case
  proof (cases i)
    case 0
    with Cons.prems p show ?thesis by simp
  next
    case (Suc j)
    with Cons.prems have j: "j < length args" "args ! j = (t, Some (TypeAttr b))"
      "list_all boundPresent (take j args)" and hd: "boundPresent (t', a')"
      using p by simp_all
    have rest: "argumentsLoop c args = Inl UnimplementedNonValueSemanticTypeBound" for c
      using Cons.IH[OF j(1,2) Cons.prems(3,4) j(3)] .
    show ?thesis
    proof (cases "isa_NonValueTensorType t'")
      case True
      with hd obtain b' where "getArgAttrOfType a' = Some b'"
        by (cases "getArgAttrOfType a'") auto
      with True p rest show ?thesis by simp
    next
      case False
      with p rest show ?thesis by simp
    qed
  qed
qed

lemma argumentsLoop_null:
  "argumentsLoop conv ((t, None) # rest) =
     (if isa_NonValueTensorType t then Inl NullTypeDereference
      else if isa_NoneType t then argumentsLoop conv rest
      else argumentsLoop (conv @ [t]) rest)"
  by simp

lemma resultsLoop_flat: "resultsLoop acc ts = acc @ concat (map flattenType ts)"
  by (induction ts arbitrary: acc) auto

lemma matchAndRewriteFunc_ok:
  "list_all boundValid (arguments func) \<Longrightarrow>
     matchAndRewriteFunc func =
       Inr (func\<lparr>arguments := map (\<lambda>t. (t, None)) (concat (map convertedArgument (arguments func))),
                 resultTypes := concat (map flattenType (resultTypes func))\<rparr>)"
  by (simp add: matchAndRewriteFunc_def argumentsLoop_ok resultsLoop_flat del: flattenType.simps)

lemma matchAndRewriteFunc_unimplemented:
  "i < length (arguments func) \<Longrightarrow> arguments func ! i = (t, Some (TypeAttr b)) \<Longrightarrow>
   isa_NonValueTensorType t \<Longrightarrow> \<not> isa_ValueTensorType b \<Longrightarrow>
   list_all boundPresent (take i (arguments func)) \<Longrightarrow>
     matchAndRewriteFunc func = Inl UnimplementedNonValueSemanticTypeBound"
  by (simp add: matchAndRewriteFunc_def argumentsLoop_unimplemented)

lemma matchAndRewriteFunc_not_ok:
  "\<not> list_all boundValid (arguments func) \<Longrightarrow> \<exists>e. matchAndRewriteFunc func = Inl e"
  using argumentsLoop_not_ok[of "arguments func" "[]"]
  by (auto simp: matchAndRewriteFunc_def)

lemma tupleBehindCast_eq:
  "\<not> castWithoutOperand v \<Longrightarrow> tupleBehindCast v = Inr (castOverTuple v)"
  apply (cases v)
   apply (simp add: tupleBehindCast_def)
  subgoal for d k t
    apply (cases d)
    subgoal for n ops ts
      apply (cases n; cases ops)
                         apply (simp_all add: tupleBehindCast_def getOperand_def)
      done
    done
  done

lemma tupleBehindCast_bad:
  "castWithoutOperand v \<Longrightarrow> tupleBehindCast v = Inl IndexOutOfRange"
  apply (cases v)
   apply simp
  subgoal for d k t
    apply (cases d)
    subgoal for n ops ts
      apply (cases n; cases ops)
                         apply (simp_all add: tupleBehindCast_def getOperand_def)
      done
    done
  done

lemma returnOperandsLoop_ok:
  "list_all groupWellFormed groups \<Longrightarrow>
     returnOperandsLoop acc groups = Inr (acc @ concat (map returnContribution groups))"
proof (induction groups arbitrary: acc)
  case Nil
  then show ?case by simp
next
  case (Cons vals groups)
  show ?case
  proof (cases vals)
    case Nil
    with Cons show ?thesis by simp
  next
    case (Cons v vs)
    note vals = this
    show ?thesis
    proof (cases vs)
      case Nil
      with vals Cons.prems Cons.IH show ?thesis by simp
    next
      case (Cons w rest)
      with vals Cons.prems have "\<not> castWithoutOperand v" by simp
      then have "tupleBehindCast v = Inr (castOverTuple v)" by (rule tupleBehindCast_eq)
      with vals Cons Cons.prems Cons.IH show ?thesis
        by (simp split: option.splits)
    qed
  qed
qed

lemma tupleIndexOps_nth:
  "length (tupleIndexOps tup ts) = length ts \<and>
   (\<forall>i < length ts. tupleIndexOps tup ts ! i =
       create1 PrimTupleIndexOp (ts ! i) [tup, create1 (ConstantIntOp (int i)) IntType []])"
  by (simp add: tupleIndexOps_def nth_enumerate_eq)

lemma matchAndRewriteReturn_isa:
  "matchAndRewriteReturn gs = Inr newReturn \<Longrightarrow> isa_ReturnOp newReturn"
  by (auto simp: matchAndRewriteReturn_def split: sum.splits)

lemma returnContribution_single:
  "list_all (\<lambda>v. \<not> isa_NoneType (getType v)) vs \<Longrightarrow>
     concat (map (\<lambda>v. if isa_NoneType (getType v) then [] else [v]) vs) = vs"
  by (induction vs) auto

lemma wellFormed_single: "list_all groupWellFormed (map (\<lambda>v. [v]) vs)"
  by (induction vs) auto

lemma return_unchanged:
  assumes "list_all (\<lambda>v. \<not> isa_NoneType (getType v)) vs"
  shows "matchAndRewriteReturn (map (\<lambda>v. [v]) vs) = Inr (Operation ReturnOp vs [])"
  by (simp add: matchAndRewriteReturn_def returnOperandsLoop_ok[OF wellFormed_single]
        returnContribution_single[OF assms] comp_def)

section \<open>Facts about the target and the driver\<close>

lemma argumentsLegal_iff:
  "argumentsLegal args = list_all (\<lambda>(t, a). a = None \<and> \<not> isa_NoneType t) args"
  by (induction args) (auto split: if_splits)

lemma resultsLegal_iff: "resultsLegal ts = list_all (\<lambda>t. \<not> isa_NoneType t) ts"
  by (induction ts) auto

lemma isLegalFuncOp_iff:
  "isLegalFuncOp func =
     (list_all (\<lambda>(t, a). a = None \<and> \<not> isa_NoneType t) (arguments func)
      \<and> list_all (\<lambda>t. \<not> isa_NoneType t) (resultTypes func))"
  by (simp add: isLegalFuncOp_def argumentsLegal_iff resultsLegal_iff)

lemma alreadyLegal_spec_imp: "alreadyLegal_spec func \<Longrightarrow> isLegalFuncOp func"
  by (auto simp: alreadyLegal_spec_def isLegalFuncOp_iff list_all_iff)





lemma runFuncs_length: "length (snd (runFuncs r tbm fs)) = length fs"
  by (induction fs) (auto split: option.splits prod.splits)



lemma runFuncs_fail:
  "f \<in> set fs \<Longrightarrow> adjustCallingConventions r f tbm = None \<Longrightarrow>
     fst (runFuncs r tbm fs) = Failure"
  by (induction fs) (auto split: option.splits prod.splits)

lemma runFuncs_keep:
  "adjustCallingConventions r f tbm = None \<Longrightarrow> k < length fs \<Longrightarrow> fs ! k = f \<Longrightarrow>
     snd (runFuncs r tbm fs) ! k = f"
proof (induction fs arbitrary: k)
  case Nil
  then show ?case by simp
next
  case (Cons g fs)
  show ?case
  proof (cases "adjustCallingConventions r g tbm")
    case None
    with Cons.prems show ?thesis by simp
  next
    case (Some p)
    with Cons.prems have "k \<noteq> 0" by (cases k) auto
    then obtain k' where k: "k = Suc k'" by (cases k) auto
    with Cons.prems Cons.IH[of k'] Some show ?thesis
      by (auto split: prod.splits)
  qed
qed

lemma convertOps_indirect:
  "(i, d) \<in> set ops \<Longrightarrow> opName d = CallIndirectOp \<Longrightarrow>
     convertOps r tbm orig fresh ops = None"
proof (induction ops arbitrary: fresh)
  case Nil
  then show ?case by simp
next
  case (Cons p ops)
  obtain j e where p: "p = (j, e)" by (cases p)
  show ?case
  proof (cases "(i, d) = (j, e)")
    case True
    with Cons.prems have "isLegalOp orig (j, e) = Illegal" "\<not> isa_CallOp e" "\<not> isa_ReturnOp e"
      by (cases e; simp add: isLegalOp_def)+
    with p show ?thesis by simp
  next
    case False
    with Cons.prems p have "(i, d) \<in> set ops" by auto
    then have "convertOps r tbm orig fr ops = None" for fr
      using Cons.IH Cons.prems(2) by blast
    with p show ?thesis by (auto split: sum.splits prod.splits)
  qed
qed

lemma adjust_indirect:
  "(i, d) \<in> set (body func) \<Longrightarrow> opName d = CallIndirectOp \<Longrightarrow>
     adjustCallingConventions r func tbm = None"
  by (simp add: adjustCallingConventions_def Let_def convertOps_indirect split: option.splits)

lemma collect_fold_apply:
  "fold (\<lambda>(i, (t, a)) m. case getArgAttrOfType a of None \<Rightarrow> m | Some b \<Rightarrow> m((name, i) \<mapsto> b))
        (enumerate k args) tbm (n, i) =
     (if n = name \<and> k \<le> i \<and> i < k + length args
      then (case getArgAttrOfType (snd (args ! (i - k))) of
              Some b \<Rightarrow> Some b | None \<Rightarrow> tbm (n, i))
      else tbm (n, i))"
proof (induction args arbitrary: k tbm)
  case Nil
  then show ?case by auto
next
  case (Cons p args)
  obtain t a where p: "p = (t, a)" by (cases p)
  show ?case
    by (auto simp: p Cons.IH nth_Cons' split: option.splits)
qed

lemma collectFunc_apply:
  "collectFunc func tbm (n, i) =
     (if n = sym_name func \<and> i < length (arguments func)
      then (case getArgAttrOfType (snd (arguments func ! i)) of
              Some b \<Rightarrow> Some b | None \<Rightarrow> tbm (n, i))
      else tbm (n, i))"
  unfolding collectFunc_def by (simp add: collect_fold_apply)

lemma fold_collectFunc_other:
  "n \<notin> sym_name ` set fs \<Longrightarrow> fold collectFunc fs tbm (n, i) = tbm (n, i)"
  by (induction fs arbitrary: tbm) (auto simp: collectFunc_apply)

lemma fold_collectFunc_bound:
  "distinct (map sym_name fs) \<Longrightarrow> f \<in> set fs \<Longrightarrow> i < length (arguments f) \<Longrightarrow>
   getArgAttrOfType (snd (arguments f ! i)) = Some b \<Longrightarrow>
     fold collectFunc fs tbm (sym_name f, i) = Some b"
proof (induction fs arbitrary: tbm)
  case Nil
  then show ?case by simp
next
  case (Cons g fs)
  show ?case
  proof (cases "f = g")
    case True
    with Cons.prems have "sym_name f \<notin> sym_name ` set fs" by auto
    then have "fold collectFunc fs (collectFunc g tbm) (sym_name f, i)
                 = collectFunc g tbm (sym_name f, i)"
      by (rule fold_collectFunc_other)
    with True Cons.prems show ?thesis by (simp add: collectFunc_apply)
  next
    case False
    with Cons.prems have "f \<in> set fs" "distinct (map sym_name fs)" by auto
    from Cons.IH[OF this(2) this(1) Cons.prems(3,4)] show ?thesis by simp
  qed
qed

lemma collectTypeBounds_bound:
  "distinct (map sym_name module) \<Longrightarrow> f \<in> set module \<Longrightarrow> i < length (arguments f) \<Longrightarrow>
   getArgAttrOfType (snd (arguments f ! i)) = Some b \<Longrightarrow>
     collectTypeBounds module (sym_name f, i) = Some b"
  unfolding collectTypeBounds_def by (rule fold_collectFunc_bound)



lemma fold_max_ge: "(a::nat) \<le> fold max xs a \<and> (\<forall>x \<in> set xs. x \<le> fold max xs a)"
proof (induction xs arbitrary: a)
  case Nil
  then show ?case by simp
next
  case (Cons x xs)
  have "max x a \<le> fold max xs (max x a)" "\<forall>y\<in>set xs. y \<le> fold max xs (max x a)"
    using Cons.IH[of "max x a"] by auto
  then show ?case by auto
qed

lemma freshId_gt: "(i, d) \<in> set ops \<Longrightarrow> i < freshId ops"
proof -
  assume "(i, d) \<in> set ops"
  then have "i \<in> set (map fst ops)" by force
  then have "i \<le> fold max (map fst ops) 0" using fold_max_ge by blast
  then show ?thesis by (simp add: freshId_def)
qed

lemma convertOps_positions:
  "convertOps r tbm orig fresh ops = Some (ops', repl) \<Longrightarrow>
     length ops' = length ops \<and>
     (\<forall>k < length ops.
        if isLegalOp orig (ops ! k) = Illegal
        then fresh \<le> fst (ops' ! k)
             \<and> (isa_CallOp (snd (ops ! k)) \<longrightarrow> isa_CallOp (snd (ops' ! k)))
             \<and> (isa_ReturnOp (snd (ops ! k)) \<longrightarrow> isa_ReturnOp (snd (ops' ! k)))
        else ops' ! k = ops ! k)"
proof (induction ops arbitrary: fresh ops' repl)
  case Nil
  then show ?case by simp
next
  case (Cons p ops)
  obtain i d where p: "p = (i, d)" by (cases p)
  show ?case
  proof (cases "isLegalOp orig (i, d) = Illegal")
    case False
    with Cons.prems p obtain ops1 where
      rest: "convertOps r tbm orig fresh ops = Some (ops1, repl)" and o: "ops' = (i, d) # ops1"
      by (auto split: option.splits)
    from Cons.IH[OF rest] False o p show ?thesis
      by (auto simp: nth_Cons split: nat.splits)
  next
    case True
    have excl: "\<not> (isa_CallOp d \<and> isa_ReturnOp d)"
      by (cases d; cases "opName d") auto
    have "\<exists>e ops1 repl1. convertOps r tbm orig (Suc fresh) ops = Some (ops1, repl1)
            \<and> ops' = (fresh, e) # ops1
            \<and> (isa_CallOp d \<longrightarrow> isa_CallOp e) \<and> (isa_ReturnOp d \<longrightarrow> isa_ReturnOp e)"
    proof (cases "isa_CallOp d")
      case c: True
      from c True Cons.prems p obtain nc nr where
        m: "matchAndRewriteCall tbm d (map (oneToOne r) (getOperands d)) = Inr (nc, nr)"
        by (cases "matchAndRewriteCall tbm d (map (oneToOne r) (getOperands d))") auto
      have "isa_CallOp nc" using m by (rule matchAndRewriteCall_isa)
      moreover have "\<not> isa_ReturnOp d" using c excl by simp
      ultimately show ?thesis
        using c True Cons.prems p m by (auto split: option.splits)
    next
      case c: False
      with True Cons.prems p have rt: "isa_ReturnOp d" by (auto split: if_splits)
      from c rt True Cons.prems p obtain nr where
        m: "matchAndRewriteReturn (map (oneToN r) (getOperands d)) = Inr nr"
        by (cases "matchAndRewriteReturn (map (oneToN r) (getOperands d))") auto
      have "isa_ReturnOp nr" using m by (rule matchAndRewriteReturn_isa)
      then show ?thesis
        using c rt True Cons.prems p m by (auto split: option.splits)
    qed
    then obtain e ops1 repl1 where
      rest: "convertOps r tbm orig (Suc fresh) ops = Some (ops1, repl1)"
      and o: "ops' = (fresh, e) # ops1"
      and e: "isa_CallOp d \<longrightarrow> isa_CallOp e" "isa_ReturnOp d \<longrightarrow> isa_ReturnOp e"
      by blast
    have mono: "Suc fresh \<le> x \<Longrightarrow> fresh \<le> x" for x by simp
    from Cons.IH[OF rest] True o p e show ?thesis
      by (auto simp: nth_Cons split: nat.splits if_splits dest: mono)
  qed
qed

lemma convertOps_repl:
  "convertOps r tbm orig fresh ops = Some (ops', repl) \<Longrightarrow>
     map fst repl = map fst (filter (\<lambda>p. isLegalOp orig p = Illegal) ops)"
proof (induction ops arbitrary: fresh ops' repl)
  case Nil
  then show ?case by simp
next
  case (Cons p ops)
  obtain i d where p: "p = (i, d)" by (cases p)
  from Cons.prems p Cons.IH show ?case
    by (auto split: option.splits sum.splits if_splits)
qed

lemma original_illegal:
  "(i, d) \<in> set (body func) \<Longrightarrow> isa_CallOp d \<or> isa_ReturnOp d \<Longrightarrow>
     isLegalOp (opsInOriginalProgram func) (i, d) = Illegal"
  by (cases d; cases "opName d") (force simp: isLegalOp_def opsInOriginalProgram_def)+

lemma orig_subset: "j \<in> opsInOriginalProgram func \<Longrightarrow> j \<in> fst ` set (body func)"
  by (auto simp: opsInOriginalProgram_def)

lemma illegal_iff:
  assumes "p \<in> set (body func)" and "opName (snd p) \<noteq> CallIndirectOp"
  shows "(isLegalOp (opsInOriginalProgram func) p = Illegal) = (isa_CallOp (snd p) \<or> isa_ReturnOp (snd p))"
proof (cases "isa_CallOp (snd p) \<or> isa_ReturnOp (snd p)")
  case True
  with assms(1) original_illegal[of "fst p" "snd p" func] show ?thesis by simp
next
  case False
  then show ?thesis using assms(2)
    by (cases "snd p"; cases "opName (snd p)") (auto simp: isLegalOp_def)
qed

lemma fresh_legal:
  assumes "j \<notin> fst ` set (body func)" and "isa_CallOp e \<or> isa_ReturnOp e"
  shows "isLegalOp (opsInOriginalProgram func) (j, e) = Legal"
proof -
  from assms(1) have "j \<notin> opsInOriginalProgram func" using orig_subset by blast
  with assms(2) show ?thesis
    by (cases e; cases "opName e") (auto simp: isLegalOp_def)
qed

lemma adjust_rewrites_once:
  assumes "adjustCallingConventions r func tbm = Some (func', repl)"
  shows "length (body func') = length (body func)
       \<and> map fst repl = map fst (filter (\<lambda>(i, d). isa_CallOp d \<or> isa_ReturnOp d) (body func))
       \<and> (\<forall>k < length (body func).
            isa_CallOp (snd (body func ! k)) \<or> isa_ReturnOp (snd (body func ! k)) \<longrightarrow>
              isLegalOp (opsInOriginalProgram func) (body func ! k) = Illegal
              \<and> fst (body func' ! k) \<notin> fst ` set (body func)
              \<and> isLegalOp (opsInOriginalProgram func) (body func' ! k) = Legal
              \<and> (isa_CallOp (snd (body func ! k)) \<longrightarrow> isa_CallOp (snd (body func' ! k)))
              \<and> (isa_ReturnOp (snd (body func ! k)) \<longrightarrow> isa_ReturnOp (snd (body func' ! k))))"
proof -
  let ?orig = "opsInOriginalProgram func"
  from assms obtain f1 ops where
    conv: "convertOps r tbm ?orig (freshId (body func)) (body func) = Some (ops, repl)"
    and f': "func' = f1\<lparr>body := ops\<rparr>"
    by (auto simp: adjustCallingConventions_def Let_def split: option.splits)
  have body': "body func' = ops" using f' by simp
  have noind: "opName (snd p) \<noteq> CallIndirectOp" if "p \<in> set (body func)" for p
  proof
    assume "opName (snd p) = CallIndirectOp"
    with that have "convertOps r tbm ?orig (freshId (body func)) (body func) = None"
      using convertOps_indirect[of "fst p" "snd p"] by simp
    with conv show False by simp
  qed
  have pos: "length ops = length (body func)"
    and posk: "\<And>k. k < length (body func) \<Longrightarrow>
        (if isLegalOp ?orig (body func ! k) = Illegal
         then freshId (body func) \<le> fst (ops ! k)
              \<and> (isa_CallOp (snd (body func ! k)) \<longrightarrow> isa_CallOp (snd (ops ! k)))
              \<and> (isa_ReturnOp (snd (body func ! k)) \<longrightarrow> isa_ReturnOp (snd (ops ! k)))
         else ops ! k = body func ! k)"
    using convertOps_positions[OF conv] by auto
  have filt: "filter (\<lambda>p. isLegalOp ?orig p = Illegal) (body func)
              = filter (\<lambda>(i, d). isa_CallOp d \<or> isa_ReturnOp d) (body func)"
    by (rule filter_cong) (auto simp: illegal_iff[OF _ noind])
  have once: "map fst repl = map fst (filter (\<lambda>(i, d). isa_CallOp d \<or> isa_ReturnOp d) (body func))"
    using convertOps_repl[OF conv] filt by simp
  have each: "isLegalOp ?orig (body func ! k) = Illegal
              \<and> fst (ops ! k) \<notin> fst ` set (body func)
              \<and> isLegalOp ?orig (ops ! k) = Legal
              \<and> (isa_CallOp (snd (body func ! k)) \<longrightarrow> isa_CallOp (snd (ops ! k)))
              \<and> (isa_ReturnOp (snd (body func ! k)) \<longrightarrow> isa_ReturnOp (snd (ops ! k)))"
    if k: "k < length (body func)"
      and cr: "isa_CallOp (snd (body func ! k)) \<or> isa_ReturnOp (snd (body func ! k))" for k
  proof -
    have mem: "body func ! k \<in> set (body func)" using k by simp
    have ill: "isLegalOp ?orig (body func ! k) = Illegal"
      using illegal_iff[OF mem noind[OF mem]] cr by simp
    with posk[OF k] have fr: "freshId (body func) \<le> fst (ops ! k)"
      and c: "isa_CallOp (snd (body func ! k)) \<longrightarrow> isa_CallOp (snd (ops ! k))"
      and rt: "isa_ReturnOp (snd (body func ! k)) \<longrightarrow> isa_ReturnOp (snd (ops ! k))"
      by auto
    have new: "fst (ops ! k) \<notin> fst ` set (body func)"
    proof
      assume "fst (ops ! k) \<in> fst ` set (body func)"
      then obtain d where "(fst (ops ! k), d) \<in> set (body func)" by force
      then have "fst (ops ! k) < freshId (body func)" by (rule freshId_gt)
      with fr show False by simp
    qed
    from cr c rt have "isa_CallOp (snd (ops ! k)) \<or> isa_ReturnOp (snd (ops ! k))" by blast
    with new have "isLegalOp ?orig (fst (ops ! k), snd (ops ! k)) = Legal"
      by (rule fresh_legal)
    with ill new c rt show ?thesis by simp
  qed
  show ?thesis using pos once each body' by simp
qed

section \<open>The claims\<close>

text \<open>
  C1 (the code departs from the claim). A tuple-typed original result is to consume the
  next N results of the new call and move the cursor past them. The loop gives the
  tuple construction all the results of the new call and leaves the cursor where it
  was: for a call with the result types (tuple of two tensors, int) the new call has
  three results, the tuple is built from all three, and the int result is replaced by
  result 0 of the new call, a tensor.
\<close>

theorem tuple_result_takes_all_new_results:
  "matchAndRewriteCall (\<lambda>k. None)
     (Operation (CallOp ''f'') []
        [TupleType [ValueTensorType 0, ValueTensorType 0], IntType]) [] =
   Inr (Operation (CallOp ''f'') [] [ValueTensorType 0, ValueTensorType 0, IntType],
        [create1 PrimTupleConstructOp (TupleType [ValueTensorType 0, ValueTensorType 0])
           [OpResult (Operation (CallOp ''f'') []
                        [ValueTensorType 0, ValueTensorType 0, IntType])
              0 (ValueTensorType 0),
            OpResult (Operation (CallOp ''f'') []
                        [ValueTensorType 0, ValueTensorType 0, IntType])
              1 (ValueTensorType 0),
            OpResult (Operation (CallOp ''f'') []
                        [ValueTensorType 0, ValueTensorType 0, IntType])
              2 IntType],
         OpResult (Operation (CallOp ''f'') []
                     [ValueTensorType 0, ValueTensorType 0, IntType])
           0 (ValueTensorType 0)])"
  by code_simp

text \<open>
  C2, as stated, fails: an annotation that is present and is not a value tensor type does
  not make the signature rewriter fail when the annotated argument is a value tensor.
  The rewriter looks at the bound of non-value tensor arguments only; here it succeeds,
  removes the annotation, and the pass succeeds on the module.
\<close>

theorem bound_on_value_tensor_accepted:
  "arguments boundOnValueTensor ! 0 = (ValueTensorType 0, Some (TypeAttr (NonValueTensorType 0)))
   \<and> \<not> isa_ValueTensorType (NonValueTensorType 0)
   \<and> matchAndRewriteFunc boundOnValueTensor =
       Inr (boundOnValueTensor\<lparr>arguments := [(ValueTensorType 0, None)]\<rparr>)
   \<and> fst (runOnOperation identityRemapping [boundOnValueTensor]) = Success"
  by code_simp

text \<open>
  C2, amended. Take a function of a module with distinct names and an argument of it,
  of whatever type, whose type bound is present and is not a value tensor type. The
  call rewriter fails with the unimplemented-bound diagnostic on every call to the
  function whose operand at that position is not none-typed. When the argument is a
  non-value tensor and every non-value tensor argument before it has a type bound, so
  that the signature rewriter gets as far as this bound, the signature rewriter fails
  with the same diagnostic, a match failure; the pass fails; and the function stands
  unchanged in the module the pass leaves.
\<close>

theorem unsupported_bound_rejected:
  assumes "distinct (map sym_name module)" and "func \<in> set module"
    and "i < length (arguments func)" and "arguments func ! i = (t, Some (TypeAttr b))"
    and "\<not> isa_ValueTensorType b"
  shows "(\<forall>call operands.
             opName call = CallOp (sym_name func) \<and> i < length operands
             \<and> \<not> isa_NoneType (getType (operands ! i)) \<longrightarrow>
               matchAndRewriteCall (collectTypeBounds module) call operands =
                 Inl UnimplementedNonValueSemanticTypeBound)
       \<and> (isa_NonValueTensorType t \<and> list_all boundPresent (take i (arguments func)) \<longrightarrow>
             matchAndRewriteFunc func = Inl UnimplementedNonValueSemanticTypeBound
             \<and> fst (runOnOperation r module) = Failure
             \<and> (\<forall>k < length module.
                   module ! k = func \<longrightarrow> snd (runOnOperation r module) ! k = func))"
proof -
  have tb: "collectTypeBounds module (sym_name func, i) = Some b"
    using assms(1,2,3) by (rule collectTypeBounds_bound) (simp add: assms(4))
  have call: "matchAndRewriteCall (collectTypeBounds module) call operands =
                 Inl UnimplementedNonValueSemanticTypeBound"
    if c: "opName call = CallOp (sym_name func)" and l: "i < length operands"
      and n: "\<not> isa_NoneType (getType (operands ! i))" for call operands
  proof -
    have "(i, operands ! i) \<in> set (enumerate 0 operands)"
      using l by (simp add: in_set_enumerate_eq)
    moreover have "\<not> boundUsable (collectTypeBounds module) (sym_name func) (i, operands ! i)"
      using tb n assms(5) by simp
    ultimately have "\<not> list_all (boundUsable (collectTypeBounds module) (sym_name func))
                          (enumerate 0 operands)"
      unfolding list_all_iff by blast
    with c show ?thesis by (rule matchAndRewriteCall_bad)
  qed
  have rest: "matchAndRewriteFunc func = Inl UnimplementedNonValueSemanticTypeBound
             \<and> fst (runOnOperation r module) = Failure
             \<and> (\<forall>k < length module.
                   module ! k = func \<longrightarrow> snd (runOnOperation r module) ! k = func)"
    if nv: "isa_NonValueTensorType t" and pre: "list_all boundPresent (take i (arguments func))"
  proof -
    have sig: "matchAndRewriteFunc func = Inl UnimplementedNonValueSemanticTypeBound"
      using assms(3,4) nv assms(5) pre by (rule matchAndRewriteFunc_unimplemented)
    have mem: "(t, Some (TypeAttr b)) \<in> set (arguments func)"
      using assms(3,4) nth_mem by fastforce
    have "\<not> isLegalFuncOp func"
      using mem by (auto simp: isLegalFuncOp_iff list_all_iff)
    with sig have adj: "adjustCallingConventions r func tbm = None" for tbm
      by (simp add: adjustCallingConventions_def Let_def legalizeFuncOp_def)
    have pass: "fst (runOnOperation r module) = Failure"
      unfolding runOnOperation_def using assms(2) adj by (rule runFuncs_fail)
    have keep: "snd (runOnOperation r module) ! k = func"
      if "k < length module" "module ! k = func" for k
      unfolding runOnOperation_def using adj that by (rule runFuncs_keep)
    show ?thesis using sig pass keep by blast
  qed
  show ?thesis using call rest by blast
qed

theorem unsupported_bound_rejected_witness:
  "distinct (map sym_name [aliasingBound]) \<and> aliasingBound \<in> set [aliasingBound]
   \<and> 1 < length (arguments aliasingBound)
   \<and> arguments aliasingBound ! 1 = (NonValueTensorType 0, Some (TypeAttr (NonValueTensorType 1)))
   \<and> \<not> isa_ValueTensorType (NonValueTensorType 1)
   \<and> opName (Operation (CallOp ''f'')
               [BlockArgument 0 (NonValueTensorType 0), BlockArgument 1 (NonValueTensorType 0)] [])
       = CallOp (sym_name aliasingBound)
   \<and> \<not> isa_NoneType (getType
          ([BlockArgument 0 (NonValueTensorType 0), BlockArgument 1 (NonValueTensorType 0)] ! 1))
   \<and> matchAndRewriteCall (collectTypeBounds [aliasingBound])
        (Operation (CallOp ''f'')
           [BlockArgument 0 (NonValueTensorType 0), BlockArgument 1 (NonValueTensorType 0)] [])
        [BlockArgument 0 (NonValueTensorType 0), BlockArgument 1 (NonValueTensorType 0)]
       = Inl UnimplementedNonValueSemanticTypeBound
   \<and> isa_NonValueTensorType (NonValueTensorType 0)
   \<and> list_all boundPresent (take 1 (arguments aliasingBound))
   \<and> matchAndRewriteFunc aliasingBound = Inl UnimplementedNonValueSemanticTypeBound
   \<and> fst (runOnOperation identityRemapping [aliasingBound]) = Failure
   \<and> snd (runOnOperation identityRemapping [aliasingBound]) ! 0 = aliasingBound"
proof -
  have h1: "distinct (map sym_name [aliasingBound])" by simp
  have h2: "aliasingBound \<in> set [aliasingBound]" by simp
  have h3: "1 < length (arguments aliasingBound)" by (simp add: aliasingBound_def)
  have h4: "arguments aliasingBound ! 1 =
              (NonValueTensorType 0, Some (TypeAttr (NonValueTensorType 1)))"
    by (simp add: aliasingBound_def)
  have h5: "\<not> isa_ValueTensorType (NonValueTensorType 1)" by simp
  have h6: "isa_NonValueTensorType (NonValueTensorType 0)" by simp
  have h7: "list_all boundPresent (take 1 (arguments aliasingBound))"
    by (simp add: aliasingBound_def)
  have n: "sym_name aliasingBound = ''f''" by (simp add: aliasingBound_def)
  from unsupported_bound_rejected[OF h1 h2 h3 h4 h5, of identityRemapping]
  show ?thesis using h1 h2 h3 h4 h6 h7 n by simp
qed




text \<open>
  C4. When the call rewriter succeeds, the list of replacement values has one entry for
  every result type of the original call, whatever the number of results of the new
  call, and at the position of every none-typed original result stands the result of a
  newly built \<^verbatim>\<open>ConstantNoneOp\<close> without operands, not a result of the new call.
\<close>

theorem call_replacements_one_per_original_result:
  assumes "matchAndRewriteCall tbm call adaptorOperands = Inr (newCall, newResults)"
  shows "length newResults = length (getResultTypes call)
       \<and> (\<forall>k < length (getResultTypes call).
            isa_NoneType (getResultTypes call ! k) \<longrightarrow>
              newResults ! k = create1 ConstantNoneOp NoneType []
              \<and> getDefiningOp (newResults ! k) = Some (Operation ConstantNoneOp [] [NoneType])
              \<and> getDefiningOp (newResults ! k) \<noteq> Some newCall)"
proof -
  have loop: "callResultsLoop newCall 0 [] (getResultTypes call) = Inr newResults"
    using assms by (rule matchAndRewriteCall_Inr)
  have callee: "\<exists>c. opName newCall = CallOp c"
    using assms
    by (auto simp: matchAndRewriteCall_def Let_def
             split: opname.splits option.splits sum.splits)
  have len: "length newResults = length (getResultTypes call)"
    using loop by (rule callResultsLoop_length)
  have none: "newResults ! k = create1 ConstantNoneOp NoneType []"
    if "k < length (getResultTypes call)" "isa_NoneType (getResultTypes call ! k)" for k
  proof -
    have "getResultTypes call ! k = NoneType"
      using that(2) by (cases "getResultTypes call ! k") simp_all
    then show ?thesis using callResultsLoop_none[OF loop that] by simp
  qed
  show ?thesis
    using len none callee by (auto simp: create1_def)
qed

theorem call_replacements_one_per_original_result_witness:
  "matchAndRewriteCall (\<lambda>k. None)
     (Operation (CallOp ''f'') [] [NoneType, IntType, NoneType]) [] =
     Inr (Operation (CallOp ''f'') [] [IntType],
          [create1 ConstantNoneOp NoneType [],
           OpResult (Operation (CallOp ''f'') [] [IntType]) 0 IntType,
           create1 ConstantNoneOp NoneType []])
   \<and> length [create1 ConstantNoneOp NoneType [],
              OpResult (Operation (CallOp ''f'') [] [IntType]) 0 IntType,
              create1 ConstantNoneOp NoneType []] = length [NoneType, IntType, NoneType]
   \<and> isa_NoneType ([NoneType, IntType, NoneType] ! 2)
   \<and> [create1 ConstantNoneOp NoneType [],
       OpResult (Operation (CallOp ''f'') [] [IntType]) 0 IntType,
       create1 ConstantNoneOp NoneType []] ! 2 = create1 ConstantNoneOp NoneType []"
proof -
  have h: "matchAndRewriteCall (\<lambda>k. None)
     (Operation (CallOp ''f'') [] [NoneType, IntType, NoneType]) [] =
     Inr (Operation (CallOp ''f'') [] [IntType],
          [create1 ConstantNoneOp NoneType [],
           OpResult (Operation (CallOp ''f'') [] [IntType]) 0 IntType,
           create1 ConstantNoneOp NoneType []])"
    by code_simp
  from call_replacements_one_per_original_result[OF h] h show ?thesis
    by simp
qed

text \<open>
  C5. When no operand that is not none-typed meets a bound other than a value tensor type,
  the call rewriter succeeds and the operands of the new call are, in the order of the
  original operands: nothing for a none-typed operand, a copy to the bound for an
  operand whose (callee, position) is in the table, and the operand itself when the
  table has no entry. The position is the one among the original operands.
\<close>

theorem call_operands_converted_in_order:
  assumes "opName call = CallOp callee"
    and "list_all (boundUsable tbm callee) (enumerate 0 adaptorOperands)"
  shows "\<exists>newCall newResults.
           matchAndRewriteCall tbm call adaptorOperands = Inr (newCall, newResults)
           \<and> opName newCall = CallOp callee
           \<and> getOperands newCall =
               concat (map (operandContribution tbm callee) (enumerate 0 adaptorOperands))"
proof -
  from matchAndRewriteCall_ok[OF assms] obtain newResults where
    "matchAndRewriteCall tbm call adaptorOperands =
       Inr (Operation (CallOp callee)
              (concat (map (operandContribution tbm callee) (enumerate 0 adaptorOperands)))
              (concat (map flattenType (getResultTypes call))),
            newResults)" ..
  then show ?thesis by simp
qed

theorem call_operands_converted_in_order_witness:
  "opName (Operation (CallOp ''f'') [] []) = CallOp ''f''
   \<and> list_all (boundUsable exampleBounds ''f'')
        (enumerate 0 [create1 ConstantNoneOp NoneType [],
                      BlockArgument 0 (NonValueTensorType 0), BlockArgument 1 IntType])
   \<and> concat (map (operandContribution exampleBounds ''f'')
        (enumerate 0 [create1 ConstantNoneOp NoneType [],
                      BlockArgument 0 (NonValueTensorType 0), BlockArgument 1 IntType]))
      = [copyTensorToType (ValueTensorType 1) (BlockArgument 0 (NonValueTensorType 0)),
         BlockArgument 1 IntType]
   \<and> (\<exists>newCall newResults.
         matchAndRewriteCall exampleBounds (Operation (CallOp ''f'') [] [])
           [create1 ConstantNoneOp NoneType [],
            BlockArgument 0 (NonValueTensorType 0), BlockArgument 1 IntType]
           = Inr (newCall, newResults)
         \<and> opName newCall = CallOp ''f''
         \<and> getOperands newCall =
              concat (map (operandContribution exampleBounds ''f'')
                (enumerate 0 [create1 ConstantNoneOp NoneType [],
                      BlockArgument 0 (NonValueTensorType 0), BlockArgument 1 IntType])))"
proof -
  have h1: "opName (Operation (CallOp ''f'') [] []) = CallOp ''f''" by simp
  have h2: "list_all (boundUsable exampleBounds ''f'')
        (enumerate 0 [create1 ConstantNoneOp NoneType [],
                      BlockArgument 0 (NonValueTensorType 0), BlockArgument 1 IntType])"
    by code_simp
  have h3: "concat (map (operandContribution exampleBounds ''f'')
        (enumerate 0 [create1 ConstantNoneOp NoneType [],
                      BlockArgument 0 (NonValueTensorType 0), BlockArgument 1 IntType]))
      = [copyTensorToType (ValueTensorType 1) (BlockArgument 0 (NonValueTensorType 0)),
         BlockArgument 1 IntType]"
    by code_simp
  from call_operands_converted_in_order[OF h1 h2] h1 h2 h3 show ?thesis by blast
qed

text \<open>
  C6. When every non-value tensor argument has a value tensor bound, the signature
  rewriter succeeds and the new declared type is: for the arguments, in order, nothing
  for a none-typed argument, the bound for a non-value tensor argument, and the
  declared type otherwise; for the results, in order, nothing for a none-typed result,
  the contained types for a tuple, and the type itself otherwise. The type bounds are
  gone.
\<close>

theorem signature_rewritten:
  assumes "list_all boundValid (arguments func)"
  shows "matchAndRewriteFunc func =
           Inr (func\<lparr>arguments := map (\<lambda>t. (t, None))
                                     (concat (map convertedArgument (arguments func))),
                     resultTypes := concat (map flattenType (resultTypes func))\<rparr>)"
  using assms by (rule matchAndRewriteFunc_ok)

theorem signature_rewritten_witness:
  "list_all boundValid (arguments mixedSignature)
   \<and> matchAndRewriteFunc mixedSignature =
       Inr (mixedSignature
              \<lparr>arguments := map (\<lambda>t. (t, None))
                               (concat (map convertedArgument (arguments mixedSignature))),
               resultTypes := concat (map flattenType (resultTypes mixedSignature))\<rparr>)
   \<and> concat (map convertedArgument (arguments mixedSignature)) = [ValueTensorType 1, IntType]
   \<and> concat (map flattenType (resultTypes mixedSignature))
       = [ValueTensorType 0, IntType, NonValueTensorType 0]"
proof -
  have h: "list_all boundValid (arguments mixedSignature)" by code_simp
  have e1: "concat (map convertedArgument (arguments mixedSignature))
              = [ValueTensorType 1, IntType]" by code_simp
  have e2: "concat (map flattenType (resultTypes mixedSignature))
       = [ValueTensorType 0, IntType, NonValueTensorType 0]" by code_simp
  from signature_rewritten[OF h] h e1 e2 show ?thesis by blast
qed

text \<open>
  C7. The operands of the new return are the contributions of the groups, concatenated in
  the order of the original operands: nothing for an empty group; for a group of one
  value, nothing when the value is none-typed and the value otherwise; for a group of
  several values whose first value is defined by a cast over a tuple-typed value, one
  indexed extraction from that tuple for each contained type, with the positions
  0, 1, ... in order; and any other group as it is. The rewriter reads operand 0 of
  the cast, so the groups are taken not to start with a cast without operands.
\<close>

theorem return_operands_converted_per_group:
  assumes "list_all groupWellFormed adaptorOperands"
  shows "matchAndRewriteReturn adaptorOperands =
           Inr (Operation ReturnOp (concat (map returnContribution adaptorOperands)) [])
       \<and> (\<forall>tup ts. length (tupleIndexOps tup ts) = length ts
            \<and> (\<forall>i < length ts.
                  tupleIndexOps tup ts ! i =
                    create1 PrimTupleIndexOp (ts ! i)
                      [tup, create1 (ConstantIntOp (int i)) IntType []]))"
  using returnOperandsLoop_ok[OF assms, of "[]"] tupleIndexOps_nth
  by (simp add: matchAndRewriteReturn_def)

theorem return_operands_converted_per_group_witness:
  "list_all groupWellFormed
     [[], [BlockArgument 1 NoneType], [BlockArgument 2 IntType],
      [OpResult exampleTupleCast 0 (ValueTensorType 0), OpResult exampleTupleCast 1 IntType],
      [BlockArgument 3 IntType, BlockArgument 4 IntType]]
   \<and> matchAndRewriteReturn
     [[], [BlockArgument 1 NoneType], [BlockArgument 2 IntType],
      [OpResult exampleTupleCast 0 (ValueTensorType 0), OpResult exampleTupleCast 1 IntType],
      [BlockArgument 3 IntType, BlockArgument 4 IntType]]
     = Inr (Operation ReturnOp
         [BlockArgument 2 IntType,
          create1 PrimTupleIndexOp (ValueTensorType 0)
            [BlockArgument 0 (TupleType [ValueTensorType 0, IntType]),
             create1 (ConstantIntOp 0) IntType []],
          create1 PrimTupleIndexOp IntType
            [BlockArgument 0 (TupleType [ValueTensorType 0, IntType]),
             create1 (ConstantIntOp 1) IntType []],
          BlockArgument 3 IntType, BlockArgument 4 IntType] [])
   \<and> (1::nat) < length [ValueTensorType 0, IntType]
   \<and> tupleIndexOps (BlockArgument 0 (TupleType [ValueTensorType 0, IntType]))
        [ValueTensorType 0, IntType] ! 1 =
       create1 PrimTupleIndexOp IntType
            [BlockArgument 0 (TupleType [ValueTensorType 0, IntType]),
             create1 (ConstantIntOp 1) IntType []]"
proof -
  have h: "list_all groupWellFormed
     [[], [BlockArgument 1 NoneType], [BlockArgument 2 IntType],
      [OpResult exampleTupleCast 0 (ValueTensorType 0), OpResult exampleTupleCast 1 IntType],
      [BlockArgument 3 IntType, BlockArgument 4 IntType]]"
    by code_simp
  have e: "concat (map returnContribution
     [[], [BlockArgument 1 NoneType], [BlockArgument 2 IntType],
      [OpResult exampleTupleCast 0 (ValueTensorType 0), OpResult exampleTupleCast 1 IntType],
      [BlockArgument 3 IntType, BlockArgument 4 IntType]])
     = [BlockArgument 2 IntType,
          create1 PrimTupleIndexOp (ValueTensorType 0)
            [BlockArgument 0 (TupleType [ValueTensorType 0, IntType]),
             create1 (ConstantIntOp 0) IntType []],
          create1 PrimTupleIndexOp IntType
            [BlockArgument 0 (TupleType [ValueTensorType 0, IntType]),
             create1 (ConstantIntOp 1) IntType []],
          BlockArgument 3 IntType, BlockArgument 4 IntType]"
    by code_simp
  from return_operands_converted_per_group[OF h] h e show ?thesis by simp
qed

text \<open>
  C8. An indirect call is illegal for the target whatever the set of original operations,
  it is neither a call nor a return, the only operations of a body that have a pattern,
  so the conversion of a function that contains one fails, and so does the pass on
  every module with such a function.
\<close>

theorem indirect_call_fails_pass:
  assumes "func \<in> set module" and "(i, d) \<in> set (body func)" and "opName d = CallIndirectOp"
  shows "isLegalOp orig (i, d) = Illegal \<and> \<not> isa_CallOp d \<and> \<not> isa_ReturnOp d
       \<and> adjustCallingConventions r func tbm = None
       \<and> fst (runOnOperation r module) = Failure"
proof -
  have "isLegalOp orig (i, d) = Illegal" "\<not> isa_CallOp d" "\<not> isa_ReturnOp d"
    using assms(3) by (cases d; simp add: isLegalOp_def)+
  moreover have adj: "adjustCallingConventions r func tb = None" for tb
    using assms(2,3) by (rule adjust_indirect)
  moreover have "fst (runOnOperation r module) = Failure"
    unfolding runOnOperation_def using assms(1) adj by (rule runFuncs_fail)
  ultimately show ?thesis by simp
qed

theorem indirect_call_fails_pass_witness:
  "indirectCaller \<in> set [exampleFunc, indirectCaller]
   \<and> (0, Operation CallIndirectOp [BlockArgument 0 (OtherType 0)] []) \<in> set (body indirectCaller)
   \<and> opName (Operation CallIndirectOp [BlockArgument 0 (OtherType 0)] []) = CallIndirectOp
   \<and> isLegalOp {} (0, Operation CallIndirectOp [BlockArgument 0 (OtherType 0)] []) = Illegal
   \<and> adjustCallingConventions identityRemapping indirectCaller Map.empty = None
   \<and> fst (runOnOperation identityRemapping [exampleFunc, indirectCaller]) = Failure"
proof -
  have h1: "indirectCaller \<in> set [exampleFunc, indirectCaller]" by simp
  have h2: "(0, Operation CallIndirectOp [BlockArgument 0 (OtherType 0)] [])
              \<in> set (body indirectCaller)"
    by (simp add: indirectCaller_def)
  have h3: "opName (Operation CallIndirectOp [BlockArgument 0 (OtherType 0)] []) = CallIndirectOp"
    by simp
  from indirect_call_fails_pass[OF h1 h2 h3, of "{}" identityRemapping Map.empty]
  show ?thesis using h1 h2 by simp
qed

text \<open>
  C9 (the code departs from the claim). A non-value tensor argument without a type bound
  is to make the signature rewriter fail with the unimplemented-bound match failure.
  The rewriter builds the null type for the missing bound and applies the cast to it,
  which ends the process; no match failure is reported. The function below has an
  unannotated tensor argument before an annotated one: the annotation makes it illegal
  for the target, so it is given to the signature rewriter, which stops at the first
  argument.
\<close>

theorem missing_bound_reads_null_type:
  "\<not> isLegalFuncOp partlyAnnotated
   \<and> arguments partlyAnnotated ! 0 = (NonValueTensorType 0, None)
   \<and> matchAndRewriteFunc partlyAnnotated = Inl NullTypeDereference
   \<and> matchAndRewriteFunc partlyAnnotated \<noteq> Inl UnimplementedNonValueSemanticTypeBound"
  by code_simp

text \<open>
  C10. When the conversion of a function succeeds: every call and every return of the
  original body is illegal for the target, whatever its operands and results, and has
  exactly one recorded replacement; the operation that stands in its place has an
  identity that no operation of the original body has, is again a call (a return), and
  is legal for the target, so it is not rewritten again. And a call without none-typed
  operand, without table entry and without none-typed or tuple-typed result is
  rewritten to a call with the same callee, operands and result types, as a return
  without none-typed operand is rewritten to a return with the same operands.
\<close>

theorem calls_and_returns_rewritten_once:
  assumes "adjustCallingConventions r func tbm = Some (func', repl)"
  shows "length (body func') = length (body func)
       \<and> map fst repl = map fst (filter (\<lambda>(i, d). isa_CallOp d \<or> isa_ReturnOp d) (body func))
       \<and> (\<forall>k < length (body func).
            isa_CallOp (snd (body func ! k)) \<or> isa_ReturnOp (snd (body func ! k)) \<longrightarrow>
              isLegalOp (opsInOriginalProgram func) (body func ! k) = Illegal
              \<and> fst (body func' ! k) \<notin> fst ` set (body func)
              \<and> isLegalOp (opsInOriginalProgram func) (body func' ! k) = Legal
              \<and> (isa_CallOp (snd (body func ! k)) \<longrightarrow> isa_CallOp (snd (body func' ! k)))
              \<and> (isa_ReturnOp (snd (body func ! k)) \<longrightarrow> isa_ReturnOp (snd (body func' ! k))))
       \<and> (\<forall>callee vs ts.
            list_all (\<lambda>v. \<not> isa_NoneType (getType v)) vs \<and> (\<forall>i. tbm (callee, i) = None)
            \<and> list_all (\<lambda>t. \<not> isa_NoneType t \<and> \<not> isa_TupleType t) ts \<longrightarrow>
              matchAndRewriteCall tbm (Operation (CallOp callee) vs ts) vs =
                Inr (Operation (CallOp callee) vs ts,
                     getResults (Operation (CallOp callee) vs ts)))
       \<and> (\<forall>vs. list_all (\<lambda>v. \<not> isa_NoneType (getType v)) vs \<longrightarrow>
              matchAndRewriteReturn (map (\<lambda>v. [v]) vs) = Inr (Operation ReturnOp vs []))"
  using adjust_rewrites_once[OF assms] call_unchanged return_unchanged by blast

theorem calls_and_returns_rewritten_once_witness:
  "adjustCallingConventions identityRemapping plainCaller Map.empty =
     Some (plainCaller\<lparr>body := [(2, plainCall),
                                 (3, Operation ReturnOp [OpResult plainCall 0 IntType] [])]\<rparr>,
           [(0, [OpResult plainCall 0 IntType]), (1, [])])
   \<and> map fst [(0, [OpResult plainCall 0 IntType]), (1::nat, [])]
       = map fst (filter (\<lambda>(i, d). isa_CallOp d \<or> isa_ReturnOp d) (body plainCaller))
   \<and> 0 < length (body plainCaller) \<and> isa_CallOp (snd (body plainCaller ! 0))
   \<and> isLegalOp (opsInOriginalProgram plainCaller) (body plainCaller ! 0) = Illegal
   \<and> isLegalOp (opsInOriginalProgram plainCaller) (2, plainCall) = Legal
   \<and> 2 \<notin> fst ` set (body plainCaller)
   \<and> 1 < length (body plainCaller) \<and> isa_ReturnOp (snd (body plainCaller ! 1))
   \<and> isLegalOp (opsInOriginalProgram plainCaller) (body plainCaller ! 1) = Illegal
   \<and> isLegalOp (opsInOriginalProgram plainCaller)
        (3, Operation ReturnOp [OpResult plainCall 0 IntType] []) = Legal
   \<and> list_all (\<lambda>v. \<not> isa_NoneType (getType v)) [BlockArgument 0 IntType]
   \<and> list_all (\<lambda>t. \<not> isa_NoneType t \<and> \<not> isa_TupleType t) [IntType]
   \<and> matchAndRewriteCall Map.empty (Operation (CallOp ''h'') [BlockArgument 0 IntType] [IntType])
        [BlockArgument 0 IntType]
       = Inr (Operation (CallOp ''h'') [BlockArgument 0 IntType] [IntType],
              getResults (Operation (CallOp ''h'') [BlockArgument 0 IntType] [IntType]))
   \<and> matchAndRewriteReturn (map (\<lambda>v. [v]) [BlockArgument 0 IntType])
       = Inr (Operation ReturnOp [BlockArgument 0 IntType] [])"
proof -
  let ?f' = "plainCaller\<lparr>body := [(2, plainCall),
                                 (3, Operation ReturnOp [OpResult plainCall 0 IntType] [])]\<rparr>"
  have h: "adjustCallingConventions identityRemapping plainCaller Map.empty =
     Some (?f', [(0, [OpResult plainCall 0 IntType]), (1, [])])"
    by code_simp
  note T = calls_and_returns_rewritten_once[OF h]
  have k0: "0 < length (body plainCaller)" "isa_CallOp (snd (body plainCaller ! 0))"
    by (simp_all add: plainCaller_def plainCall_def)
  have k1: "1 < length (body plainCaller)" "isa_ReturnOp (snd (body plainCaller ! 1))"
    by (simp_all add: plainCaller_def plainCall_def)
  have b0: "body ?f' ! 0 = (2, plainCall)"
    and b1: "body ?f' ! 1 = (3, Operation ReturnOp [OpResult plainCall 0 IntType] [])"
    by simp_all
  from T have once: "map fst [(0, [OpResult plainCall 0 IntType]), (1::nat, [])]
       = map fst (filter (\<lambda>(i, d). isa_CallOp d \<or> isa_ReturnOp d) (body plainCaller))"
    by blast
  from T have each: "\<forall>k < length (body plainCaller).
            isa_CallOp (snd (body plainCaller ! k)) \<or> isa_ReturnOp (snd (body plainCaller ! k)) \<longrightarrow>
              isLegalOp (opsInOriginalProgram plainCaller) (body plainCaller ! k) = Illegal
              \<and> fst (body ?f' ! k) \<notin> fst ` set (body plainCaller)
              \<and> isLegalOp (opsInOriginalProgram plainCaller) (body ?f' ! k) = Legal"
    by blast
  from each k0 have e0: "isLegalOp (opsInOriginalProgram plainCaller) (body plainCaller ! 0) = Illegal
              \<and> fst (body ?f' ! 0) \<notin> fst ` set (body plainCaller)
              \<and> isLegalOp (opsInOriginalProgram plainCaller) (body ?f' ! 0) = Legal"
    by blast
  from each k1 have e1: "isLegalOp (opsInOriginalProgram plainCaller) (body plainCaller ! 1) = Illegal
              \<and> isLegalOp (opsInOriginalProgram plainCaller) (body ?f' ! 1) = Legal"
    by blast
  have p1: "list_all (\<lambda>v. \<not> isa_NoneType (getType v)) [BlockArgument 0 IntType]" by simp
  have p2: "\<forall>i. Map.empty (''h'', i) = (None :: ty option)" by simp
  have p3: "list_all (\<lambda>t. \<not> isa_NoneType t \<and> \<not> isa_TupleType t) [IntType]" by simp
  from T have "\<forall>callee vs ts.
            list_all (\<lambda>v. \<not> isa_NoneType (getType v)) vs \<and> (\<forall>i. Map.empty (callee, i) = (None :: ty option))
            \<and> list_all (\<lambda>t. \<not> isa_NoneType t \<and> \<not> isa_TupleType t) ts \<longrightarrow>
              matchAndRewriteCall Map.empty (Operation (CallOp callee) vs ts) vs =
                Inr (Operation (CallOp callee) vs ts,
                     getResults (Operation (CallOp callee) vs ts))"
    by blast
  with p1 p2 p3 have c: "matchAndRewriteCall Map.empty
        (Operation (CallOp ''h'') [BlockArgument 0 IntType] [IntType]) [BlockArgument 0 IntType]
       = Inr (Operation (CallOp ''h'') [BlockArgument 0 IntType] [IntType],
              getResults (Operation (CallOp ''h'') [BlockArgument 0 IntType] [IntType]))"
    by blast
  from T have "\<forall>vs. list_all (\<lambda>v. \<not> isa_NoneType (getType v)) vs \<longrightarrow>
              matchAndRewriteReturn (map (\<lambda>v. [v]) vs) = Inr (Operation ReturnOp vs [])"
    by blast
  with p1 have rt: "matchAndRewriteReturn (map (\<lambda>v. [v]) [BlockArgument 0 IntType])
       = Inr (Operation ReturnOp [BlockArgument 0 IntType] [])"
    by blast
  show ?thesis
    using h once k0 k1 e0 e1 p1 p3 c rt unfolding b0 b1 by simp
qed

end
